theory Spec2Isabelle
  imports Main "HOL-Library.Word" "HOL-Library.Multiset" "HOL-Library.List_Lexorder"
    "HOL-Library.Product_Lexorder"
begin

section \<open>Values of the script\<close>

text \<open>
  A JavaScript string is a sequence of 16-bit code units. Literals of the script are
  embedded with \<open>str\<close>, which reads each character of an ASCII literal as its code unit.
\<close>

type_synonym jsstring = "16 word list"

definition ch :: "char \<Rightarrow> 16 word" where
  "ch c = of_char c"

definition str :: "string \<Rightarrow> jsstring" where
  "str s = map ch s"

text \<open>
  The values an entry's \<open>id\<close> takes after \<open>JSON.parse\<close>: absent (\<open>undefined\<close>),
  \<open>null\<close>, a boolean, a number or a string. The numbers modelled are the integers.
\<close>

datatype jsval = JUndefined | JNull | JBool bool | JNum int | JStr jsstring

datatype error = TypeError | URIError | SyntaxError | LoadError

text \<open>ToBoolean, as \<open>s || ''\<close> and \<open>if (c.date)\<close> use it.\<close>

fun truthy :: "jsval \<Rightarrow> bool" where
  "truthy JUndefined = False"
| "truthy JNull = False"
| "truthy (JBool b) = b"
| "truthy (JNum n) = (n \<noteq> 0)"
| "truthy (JStr s) = (s \<noteq> [])"

subsection \<open>escapeHtml\<close>

text \<open>
  \<^verbatim>\<open>function escapeHtml(s) {
    return (s || '').replace(/[&<>"']/g, ch => ({
      '&': '&amp;', '<': '&lt;', '>': '&gt;', '"': '&quot;', "'": '&#39;' })[ch]);
  }\<close>
  The replacement of one code unit is \<open>escapeChar\<close>. A falsy argument becomes the empty
  string; a truthy argument that is not a string has no \<open>replace\<close> method, and the call
  raises a TypeError.
\<close>

definition escapeChar :: "16 word \<Rightarrow> jsstring" where
  "escapeChar c =
     (if c = ch CHR ''&'' then str ''&amp;''
      else if c = ch CHR ''<'' then str ''&lt;''
      else if c = ch CHR ''>'' then str ''&gt;''
      else if c = ch CHR 0x22 then str ''&quot;''
      else if c = ch CHR 0x27 then str ''&#39;''
      else [c])"

definition replaceSpecials :: "jsstring \<Rightarrow> jsstring" where
  "replaceSpecials s = concat (map escapeChar s)"

definition escapeHtml :: "jsval \<Rightarrow> error + jsstring" where
  "escapeHtml s =
     (if truthy s
      then (case s of JStr t \<Rightarrow> Inr (replaceSpecials t) | _ \<Rightarrow> Inl TypeError)
      else Inr [])"

subsection \<open>String conversion\<close>

text \<open>
  \<open>String(v)\<close> for the values above. An integer of magnitude up to \<open>2^53\<close> prints in
  decimal, with a leading minus sign when negative. Beyond that the script prints the
  shortest digits that read back as the same double, and an exponent from \<open>10^21\<close> on;
  what a number beyond \<open>2^53\<close> prints as is left unspecified here, so that nothing
  proved below depends on it.
\<close>

definition digitChar :: "nat \<Rightarrow> 16 word" where
  "digitChar d = of_nat (48 + d)"

function showNat :: "nat \<Rightarrow> jsstring" where
  "showNat n = (if n < 10 then [digitChar n] else showNat (n div 10) @ [digitChar (n mod 10)])"
  by pat_completeness auto
termination
  by (relation "measure (\<lambda>n. n)") auto

declare showNat.simps [simp del]

fun toString :: "jsval \<Rightarrow> jsstring" where
  "toString JUndefined = str ''undefined''"
| "toString JNull = str ''null''"
| "toString (JBool b) = (if b then str ''true'' else str ''false'')"
| "toString (JNum n) =
     (if \<bar>n\<bar> \<le> 2 ^ 53
      then (if n < 0 then ch CHR ''-'' # showNat (nat (- n)) else showNat (nat n))
      else undefined n)"
| "toString (JStr s) = s"

text \<open>\<open>v ?? ''\<close>: the empty string stands in for \<open>null\<close> and \<open>undefined\<close> only.\<close>

fun orEmpty :: "jsval \<Rightarrow> jsval" where
  "orEmpty JUndefined = JStr []"
| "orEmpty JNull = JStr []"
| "orEmpty v = v"

text \<open>
  \<open>String.prototype.trim\<close> removes the white space and line terminator code units of
  ECMAScript from both ends.
\<close>

definition isWhiteSpace :: "16 word \<Rightarrow> bool" where
  "isWhiteSpace c \<longleftrightarrow>
     c \<in> {0x9, 0xA, 0xB, 0xC, 0xD, 0x20, 0xA0, 0x1680, 0x2028, 0x2029, 0x202F, 0x205F,
          0x3000, 0xFEFF} \<or> (0x2000 \<le> c \<and> c \<le> 0x200A)"

definition trim :: "jsstring \<Rightarrow> jsstring" where
  "trim s = rev (dropWhile isWhiteSpace (rev (dropWhile isWhiteSpace s)))"

section \<open>Entries and their display strings\<close>

text \<open>
  An entry of the manifest. \<open>None\<close> is a field that is absent or \<open>null\<close>; the id is any
  value of \<open>jsval\<close>.
\<close>

record entry =
  c_id :: jsval
  c_title :: "jsstring option"
  c_date :: "jsstring option"
  c_image :: jsstring
  c_alt :: "jsstring option"

text \<open>
  \<^verbatim>\<open>function displayTitle(c) {
    return c.title?.trim() ? c.title : `Page #${String(c.id ?? '').trim()}`;
  }\<close>
\<close>

definition displayTitle :: "entry \<Rightarrow> jsstring" where
  "displayTitle c =
     (case c_title c of
        Some t \<Rightarrow> if trim t \<noteq> [] then t else str ''Page #'' @ trim (toString (orEmpty (c_id c)))
      | None \<Rightarrow> str ''Page #'' @ trim (toString (orEmpty (c_id c))))"

text \<open>\<open>Array.prototype.join\<close> on a list of strings.\<close>

fun joinWith :: "jsstring \<Rightarrow> jsstring list \<Rightarrow> jsstring" where
  "joinWith sep [] = []"
| "joinWith sep [x] = x"
| "joinWith sep (x # y # ys) = x @ sep @ joinWith sep (y # ys)"

text \<open>
  \<^verbatim>\<open>function displayMeta(c) {
    const bits = [];
    if (c.date) bits.push(c.date);
    if (c.id != null) bits.push(`#${c.id}`);
    return bits.join(' \<bullet> ');
  }\<close>
  The separator is a space, U+2022 and a space.
\<close>

definition displayMeta :: "entry \<Rightarrow> jsstring" where
  "displayMeta c =
     joinWith [0x20, 0x2022, 0x20]
       ((case c_date c of Some d \<Rightarrow> if d \<noteq> [] then [d] else [] | None \<Rightarrow> []) @
        (if c_id c \<noteq> JNull \<and> c_id c \<noteq> JUndefined then [ch CHR ''#'' # toString (c_id c)] else []))"

section \<open>The markup of the archive grid\<close>

text \<open>
  The pieces of the template literal of \<open>renderGrid\<close>, between its interpolations.
\<close>

definition tile0 :: jsstring where
  \<open>tile0 = str ''\<newline>      <button class="tile" type="button" data-open="''\<close>

definition tile1 :: jsstring where
  \<open>tile1 = str ''" aria-label="Open ''\<close>

definition tile2 :: jsstring where
  \<open>tile2 = str ''">\<newline>        <img class="thumb" src="''\<close>

definition tile3 :: jsstring where
  \<open>tile3 = str ''" alt="''\<close>

definition tile4 :: jsstring where
  \<open>tile4 = str ''" loading="lazy">\<newline>        <h3>''\<close>

definition tile5 :: jsstring where
  \<open>tile5 = str ''</h3>\<newline>        ''\<close>

definition meta0 :: jsstring where
  \<open>meta0 = str ''<div class="muted small">''\<close>

definition meta1 :: jsstring where
  \<open>meta1 = str ''</div>''\<close>

definition tile6 :: jsstring where
  \<open>tile6 = str ''\<newline>      </button>\<newline>    ''\<close>

definition bindE :: "error + 'a \<Rightarrow> ('a \<Rightarrow> error + 'b) \<Rightarrow> error + 'b" where
  "bindE m f = (case m of Inl e \<Rightarrow> Inl e | Inr x \<Rightarrow> f x)"

text \<open>
  One tile: the callback of \<open>comics.map\<close>. The interpolations are evaluated from left to
  right, so the first \<open>escapeHtml\<close> that raises ends the evaluation.
  \<^verbatim>\<open>const title = displayTitle(c);
  const meta = displayMeta(c);
  return `
    <button class="tile" type="button" data-open="${escapeHtml(c.id)}" aria-label="Open ${escapeHtml(title)}">
      <img class="thumb" src="${escapeHtml(c.image)}" alt="${escapeHtml(c.alt || title)}" loading="lazy">
      <h3>${escapeHtml(title)}</h3>
      ${meta ? `<div class="muted small">${escapeHtml(meta)}</div>` : ''}
    </button>
  `;\<close>
\<close>

definition altOr :: "entry \<Rightarrow> jsstring \<Rightarrow> jsstring" where
  "altOr c t = (case c_alt c of Some a \<Rightarrow> if a \<noteq> [] then a else t | None \<Rightarrow> t)"

definition tile :: "entry \<Rightarrow> error + jsstring" where
  "tile c =
     (let title = displayTitle c; meta = displayMeta c in
      bindE (escapeHtml (c_id c)) (\<lambda>e1.
      bindE (escapeHtml (JStr title)) (\<lambda>e2.
      bindE (escapeHtml (JStr (c_image c))) (\<lambda>e3.
      bindE (escapeHtml (JStr (altOr c title))) (\<lambda>e4.
      bindE (escapeHtml (JStr title)) (\<lambda>e5.
      bindE (if meta \<noteq> [] then bindE (escapeHtml (JStr meta)) (\<lambda>e6. Inr (meta0 @ e6 @ meta1))
             else Inr []) (\<lambda>m.
      Inr (tile0 @ e1 @ tile1 @ e2 @ tile2 @ e3 @ tile3 @ e4 @ tile4 @ e5 @ tile5 @ m @ tile6))))))))"

text \<open>\<open>comics.map(...).join('')\<close>: the tiles in order; the first exception ends the map.\<close>

fun gridMarkup :: "entry list \<Rightarrow> error + jsstring" where
  "gridMarkup [] = Inr []"
| "gridMarkup (c # cs) = bindE (tile c) (\<lambda>h. bindE (gridMarkup cs) (\<lambda>hs. Inr (h @ hs)))"





section \<open>Identifier Sorter\<close>

subsection \<open>Numbers parsed from an id\<close>

text \<open>
  The numbers \<open>idToNumber\<close> returns: \<open>NaN\<close>, or what \<open>parseInt\<close> makes of a run of
  decimal digits, a non-negative integer that a double holds (\<open>Finite\<close>), or
  \<open>Infinity\<close> when the run is too long for a double.
\<close>

datatype number = NaN | Infinity | Finite nat

fun isFinite :: "number \<Rightarrow> bool" where
  "isFinite (Finite n) = True"
| "isFinite NaN = False"
| "isFinite Infinity = False"

definition isDigit :: "16 word \<Rightarrow> bool" where
  "isDigit c \<longleftrightarrow> 0x30 \<le> c \<and> c \<le> 0x39"

text \<open>\<open>s.match(/\d+/)\<close>: the first maximal run of ASCII digits, if there is one.\<close>

definition matchDigits :: "jsstring \<Rightarrow> jsstring option" where
  "matchDigits s =
     (let r = dropWhile (\<lambda>c. \<not> isDigit c) s
      in if r = [] then None else Some (takeWhile isDigit r))"

text \<open>The integer a string of decimal digits denotes.\<close>

definition digitsValue :: "jsstring \<Rightarrow> nat" where
  "digitsValue ds = foldl (\<lambda>acc c. 10 * acc + (unat c - 48)) 0 ds"

text \<open>
  The Number value of a non-negative integer: the nearest double, ties to the even
  significand (53 bits), and \<open>Infinity\<close> from \<open>2^1024\<close> on. \<open>dropBits n\<close> is the number of
  low bits that do not fit the significand.
\<close>

function dropBits :: "nat \<Rightarrow> nat" where
  "dropBits n = (if n < 2 ^ 53 then 0 else Suc (dropBits (n div 2)))"
  by pat_completeness auto
termination
  by (relation "measure (\<lambda>n. n)") auto

declare dropBits.simps [simp del]

definition roundTiesEven :: "nat \<Rightarrow> nat" where
  "roundTiesEven n =
     (let e = dropBits n; q = n div 2 ^ e; r = n mod 2 ^ e
      in if 2 ^ e < 2 * r \<or> (2 * r = 2 ^ e \<and> odd q) then (q + 1) * 2 ^ e else q * 2 ^ e)"

definition toNumber :: "nat \<Rightarrow> number" where
  "toNumber n = (let m = roundTiesEven n in if m < 2 ^ 1024 then Finite m else Infinity)"

text \<open>
  \<^verbatim>\<open>function idToNumber(id) {
    const m = String(id ?? '').match(/\d+/);
    return m ? parseInt(m[0], 10) : Number.NaN;
  }\<close>
  \<open>parseInt\<close> is taken to convert the whole run exactly before rounding (ECMAScript
  lets an implementation read the digits after the 20th as zeros).
\<close>

definition idToNumber :: "jsval \<Rightarrow> number" where
  "idToNumber v =
     (case matchDigits (toString (orEmpty v)) of
        Some ds \<Rightarrow> toNumber (digitsValue ds)
      | None \<Rightarrow> NaN)"

text \<open>
  \<open>na - nb\<close> for two finite numbers. The script's sort reads only the sign of what the
  comparator returns, and the difference of two doubles has the sign of the exact
  difference, which is the value modelled.
\<close>

fun subtract :: "number \<Rightarrow> number \<Rightarrow> int" where
  "subtract (Finite x) (Finite y) = int x - int y"
| "subtract _ _ = 0"

text \<open>
  \<^verbatim>\<open>function byIdAscending(a, b) {
    const na = idToNumber(a.id);
    const nb = idToNumber(b.id);
    const aHas = Number.isFinite(na);
    const bHas = Number.isFinite(nb);
    if (aHas && bHas && na !== nb) return na - nb;
    if (aHas && !bHas) return -1;
    if (!aHas && bHas) return 1;
    return String(a.id ?? '').localeCompare(String(b.id ?? ''), undefined, { numeric: true });
  }\<close>
  \<open>localeCompare\<close> with the default locale is the collation of the platform the script
  runs on; it is the parameter \<open>lc\<close>.
\<close>

definition byIdAscending :: "(jsstring \<Rightarrow> jsstring \<Rightarrow> int) \<Rightarrow> entry \<Rightarrow> entry \<Rightarrow> int" where
  "byIdAscending lc a b =
     (let na = idToNumber (c_id a); nb = idToNumber (c_id b);
          aHas = isFinite na; bHas = isFinite nb
      in if aHas \<and> bHas \<and> na \<noteq> nb then subtract na nb
         else if aHas \<and> \<not> bHas then - 1
         else if \<not> aHas \<and> bHas then 1
         else lc (toString (orEmpty (c_id a))) (toString (orEmpty (c_id b))))"

text \<open>
  A consistent comparator, as \<open>Array.prototype.sort\<close> requires of its argument: the
  signs of \<open>cmp x y\<close> and \<open>cmp y x\<close> are opposite, and \<open>cmp x y \<le> 0\<close> is transitive.
\<close>

definition consistent :: "('a \<Rightarrow> 'a \<Rightarrow> int) \<Rightarrow> bool" where
  "consistent cmp \<longleftrightarrow>
     (\<forall>x y. sgn (cmp x y) = - sgn (cmp y x)) \<and>
     (\<forall>x y z. cmp x y \<le> 0 \<longrightarrow> cmp y z \<le> 0 \<longrightarrow> cmp x z \<le> 0)"

text \<open>
  The order of the numbers of two ids that the sorted collection is read against: a
  finite number is below a larger one and below \<open>NaN\<close> and \<open>Infinity\<close>.
\<close>

fun numberLe :: "number \<Rightarrow> number \<Rightarrow> bool" where
  "numberLe (Finite x) (Finite y) = (x \<le> y)"
| "numberLe (Finite x) _ = True"
| "numberLe _ (Finite y) = False"
| "numberLe _ _ = True"

text \<open>
  \<open>Array.prototype.sort\<close> is stable; with a consistent comparator its result is the one
  a stable insertion sort computes.
\<close>

fun insertBy :: "('a \<Rightarrow> 'a \<Rightarrow> int) \<Rightarrow> 'a \<Rightarrow> 'a list \<Rightarrow> 'a list" where
  "insertBy cmp x [] = [x]"
| "insertBy cmp x (y # ys) = (if cmp x y \<le> 0 then x # y # ys else y # insertBy cmp x ys)"

definition sortBy :: "('a \<Rightarrow> 'a \<Rightarrow> int) \<Rightarrow> 'a list \<Rightarrow> 'a list" where
  "sortBy cmp xs = foldr (insertBy cmp) xs []"

subsection \<open>A numeric collation\<close>

text \<open>
  One collation with the \<open>numeric\<close> option, to have a concrete comparison at hand:
  a string is read as a sequence of digit runs and single code units; a run of digits
  counts as the number it denotes (leading zeros do not count) and sorts where the digits
  sort; the sequences are compared lexicographically. On strings of ASCII digits and
  lower-case letters, with digit runs of fewer than 254 digits, this is the order of the
  root locale. Elsewhere it orders code units by their code, which is a consistent
  order but not the platform's (that has its own tables for case, accents and
  punctuation). The theorems below about \<open>byIdAscending\<close> hold for every consistent
  collation; this one is used at the ids \<open>001\<close>, \<open>002\<close>, \<open>02\<close>, \<open>2\<close>, \<open>abc\<close> and at
  \<open>a9007199254740993\<close>, \<open>b9007199254740992\<close>.
\<close>

function collationKey :: "jsstring \<Rightarrow> (nat \<times> nat) list" where
  "collationKey [] = []"
| "collationKey (c # cs) =
     (if isDigit c
      then (48, digitsValue (takeWhile isDigit (c # cs))) # collationKey (dropWhile isDigit cs)
      else (unat c, 0) # collationKey cs)"
  by pat_completeness auto
termination
  by (relation "measure length") (auto simp: length_dropWhile_le less_Suc_eq_le)

definition localeCompareNumeric :: "jsstring \<Rightarrow> jsstring \<Rightarrow> int" where
  "localeCompareNumeric a b =
     (if collationKey a < collationKey b then - 1
      else if collationKey b < collationKey a then 1 else 0)"

section \<open>Hash Sync\<close>

subsection \<open>encodeURIComponent\<close>

text \<open>
  Code points are natural numbers, octets natural numbers below 256. The characters
  \<open>encodeURIComponent\<close> leaves as they are: ASCII letters and digits and
  \<^verbatim>\<open>- _ . ! ~ * ' ( )\<close>.
\<close>

definition isAlnum :: "16 word \<Rightarrow> bool" where
  "isAlnum c \<longleftrightarrow> (0x41 \<le> c \<and> c \<le> 0x5A) \<or> (0x61 \<le> c \<and> c \<le> 0x7A) \<or> (0x30 \<le> c \<and> c \<le> 0x39)"

definition isUnreserved :: "16 word \<Rightarrow> bool" where
  "isUnreserved c \<longleftrightarrow> isAlnum c \<or> c \<in> {0x2D, 0x5F, 0x2E, 0x21, 0x7E, 0x2A, 0x27, 0x28, 0x29}"

definition isLead :: "16 word \<Rightarrow> bool" where
  "isLead c \<longleftrightarrow> 0xD800 \<le> c \<and> c \<le> 0xDBFF"

definition isTrail :: "16 word \<Rightarrow> bool" where
  "isTrail c \<longleftrightarrow> 0xDC00 \<le> c \<and> c \<le> 0xDFFF"

definition pairValue :: "16 word \<Rightarrow> 16 word \<Rightarrow> nat" where
  "pairValue c d = 0x10000 + (unat c - 0xD800) * 0x400 + (unat d - 0xDC00)"

definition utf8Encode :: "nat \<Rightarrow> nat list" where
  "utf8Encode cp =
     (if cp < 0x80 then [cp]
      else if cp < 0x800 then [0xC0 + cp div 64, 0x80 + cp mod 64]
      else if cp < 0x10000 then [0xE0 + cp div 4096, 0x80 + cp div 64 mod 64, 0x80 + cp mod 64]
      else [0xF0 + cp div 262144, 0x80 + cp div 4096 mod 64, 0x80 + cp div 64 mod 64,
            0x80 + cp mod 64])"

definition hexDigit :: "nat \<Rightarrow> 16 word" where
  "hexDigit n = (if n < 10 then of_nat (48 + n) else of_nat (55 + n))"

definition percent :: "nat \<Rightarrow> jsstring" where
  "percent b = [0x25, hexDigit (b div 16), hexDigit (b mod 16)]"

definition percentAll :: "nat list \<Rightarrow> jsstring" where
  "percentAll bs = concat (map percent bs)"

text \<open>
  \<open>encodeURIComponent(s)\<close>: an unreserved code unit stays; any other code point is
  written as the percent-escapes of its UTF-8 octets; a surrogate that is not part of a
  pair raises a URIError.
\<close>

fun encodeURIComponent :: "jsstring \<Rightarrow> error + jsstring" where
  "encodeURIComponent [] = Inr []"
| "encodeURIComponent [c] =
     (if isUnreserved c then Inr [c]
      else if isLead c \<or> isTrail c then Inl URIError
      else Inr (percentAll (utf8Encode (unat c))))"
| "encodeURIComponent (c # d # ds) =
     (if isUnreserved c then bindE (encodeURIComponent (d # ds)) (\<lambda>r. Inr (c # r))
      else if isLead c then
        (if isTrail d
         then bindE (encodeURIComponent ds) (\<lambda>r. Inr (percentAll (utf8Encode (pairValue c d)) @ r))
         else Inl URIError)
      else if isTrail c then Inl URIError
      else bindE (encodeURIComponent (d # ds)) (\<lambda>r. Inr (percentAll (utf8Encode (unat c)) @ r)))"

subsection \<open>The fragment of the location\<close>

text \<open>
  Where the platform reads a string as scalar values, a surrogate outside a pair is read
  as U+FFFD.
\<close>

fun toScalars :: "jsstring \<Rightarrow> nat list" where
  "toScalars [] = []"
| "toScalars [c] = (if isLead c \<or> isTrail c then [0xFFFD] else [unat c])"
| "toScalars (c # d # ds) =
     (if isLead c then
        (if isTrail d then pairValue c d # toScalars ds else 0xFFFD # toScalars (d # ds))
      else if isTrail c then 0xFFFD # toScalars (d # ds)
      else unat c # toScalars (d # ds))"

definition fromScalar :: "nat \<Rightarrow> jsstring" where
  "fromScalar cp =
     (if cp < 0x10000 then [of_nat cp]
      else [of_nat (0xD800 + (cp - 0x10000) div 0x400), of_nat (0xDC00 + (cp - 0x10000) mod 0x400)])"

definition fromScalars :: "nat list \<Rightarrow> jsstring" where
  "fromScalars cps = concat (map fromScalar cps)"

text \<open>
  The setter of \<open>URL.hash\<close>: the empty string removes the fragment; otherwise one leading
  \<open>#\<close> is dropped, ASCII tabs and newlines are removed, and every code point of the
  fragment percent-encode set (C0 controls, space, \<^verbatim>\<open>" < > `\<close> and everything above
  U+007E) is percent-encoded. \<open>None\<close> is a URL without fragment.
\<close>

definition inFragmentSet :: "nat \<Rightarrow> bool" where
  "inFragmentSet cp \<longleftrightarrow> cp \<le> 0x1F \<or> 0x7E < cp \<or> cp \<in> {0x20, 0x22, 0x3C, 0x3E, 0x60}"

definition fragmentEncode :: "nat \<Rightarrow> jsstring" where
  "fragmentEncode cp = (if inFragmentSet cp then percentAll (utf8Encode cp) else [of_nat cp])"

definition stripPrefixChar :: "16 word \<Rightarrow> jsstring \<Rightarrow> jsstring" where
  "stripPrefixChar p s = (case s of [] \<Rightarrow> [] | c # cs \<Rightarrow> if c = p then cs else s)"

definition hashSetter :: "jsstring \<Rightarrow> jsstring option" where
  "hashSetter v =
     (if v = [] then None
      else Some (concat (map fragmentEncode
             (filter (\<lambda>cp. cp \<notin> {0x9, 0xA, 0xD}) (toScalars (stripPrefixChar 0x23 v))))))"

text \<open>The getter of \<open>location.hash\<close>.\<close>

definition hashGetter :: "jsstring option \<Rightarrow> jsstring" where
  "hashGetter f = (case f of None \<Rightarrow> [] | Some s \<Rightarrow> if s = [] then [] else 0x23 # s)"

subsection \<open>URLSearchParams\<close>

fun splitOn :: "'a \<Rightarrow> 'a list \<Rightarrow> 'a list list" where
  "splitOn s [] = [[]]"
| "splitOn s (x # xs) =
     (if x = s then [] # splitOn s xs
      else (case splitOn s xs of [] \<Rightarrow> [[x]] | y # ys \<Rightarrow> (x # y) # ys))"

definition isHex :: "nat \<Rightarrow> bool" where
  "isHex b \<longleftrightarrow> (0x30 \<le> b \<and> b \<le> 0x39) \<or> (0x41 \<le> b \<and> b \<le> 0x46) \<or> (0x61 \<le> b \<and> b \<le> 0x66)"

definition hexValue :: "nat \<Rightarrow> nat" where
  "hexValue b = (if b \<le> 0x39 then b - 0x30 else if b \<le> 0x46 then b - 0x37 else b - 0x57)"

fun percentDecode :: "nat list \<Rightarrow> nat list" where
  "percentDecode (b # h1 # h2 # bs) =
     (if b = 0x25 \<and> isHex h1 \<and> isHex h2 then (hexValue h1 * 16 + hexValue h2) # percentDecode bs
      else b # percentDecode (h1 # h2 # bs))"
| "percentDecode bs = bs"

text \<open>
  The UTF-8 decoder of the platform (no byte order mark handling): \<open>cp\<close> is the code
  point read so far, \<open>needed\<close> the number of continuation octets still expected, \<open>lo\<close>
  and \<open>hi\<close> the bounds of the next one. An octet that cannot continue a sequence yields
  U+FFFD and is read again as the start of a sequence.
\<close>

function utf8DecodeFrom :: "nat \<Rightarrow> nat \<Rightarrow> nat \<Rightarrow> nat \<Rightarrow> nat list \<Rightarrow> nat list" where
  "utf8DecodeFrom cp needed lo hi [] = (if needed = 0 then [] else [0xFFFD])"
| "utf8DecodeFrom cp needed lo hi (b # bs) =
     (if needed = 0 then
        (if b < 0x80 then b # utf8DecodeFrom 0 0 0x80 0xBF bs
         else if 0xC2 \<le> b \<and> b \<le> 0xDF then utf8DecodeFrom (b mod 32) 1 0x80 0xBF bs
         else if 0xE0 \<le> b \<and> b \<le> 0xEF then
           utf8DecodeFrom (b mod 16) 2 (if b = 0xE0 then 0xA0 else 0x80)
             (if b = 0xED then 0x9F else 0xBF) bs
         else if 0xF0 \<le> b \<and> b \<le> 0xF4 then
           utf8DecodeFrom (b mod 8) 3 (if b = 0xF0 then 0x90 else 0x80)
             (if b = 0xF4 then 0x8F else 0xBF) bs
         else 0xFFFD # utf8DecodeFrom 0 0 0x80 0xBF bs)
      else if b < lo \<or> hi < b then 0xFFFD # utf8DecodeFrom 0 0 0x80 0xBF (b # bs)
      else if needed = 1 then (cp * 64 + b mod 64) # utf8DecodeFrom 0 0 0x80 0xBF bs
      else utf8DecodeFrom (cp * 64 + b mod 64) (needed - 1) 0x80 0xBF bs)"
  by pat_completeness auto
termination
  by (relation "measure (\<lambda>(cp, needed, lo, hi, bs). 2 * length bs + (if needed = 0 then 0 else 1))")
    auto

declare utf8DecodeFrom.simps [simp del]

definition utf8Decode :: "nat list \<Rightarrow> nat list" where
  "utf8Decode bs = utf8DecodeFrom 0 0 0x80 0xBF bs"

text \<open>
  The parser of \<open>new URLSearchParams(init)\<close> for a string: one leading \<open>?\<close> is dropped;
  the UTF-8 octets are split at \<open>&\<close>; an empty piece is skipped; a piece is split at its
  first \<open>=\<close>; \<open>+\<close> is read as a space; name and value are percent-decoded and decoded
  from UTF-8.
\<close>

definition plusToSpace :: "nat list \<Rightarrow> nat list" where
  "plusToSpace bs = map (\<lambda>b. if b = 0x2B then 0x20 else b) bs"

definition decodeComponent :: "nat list \<Rightarrow> jsstring" where
  "decodeComponent bs = fromScalars (utf8Decode (percentDecode (plusToSpace bs)))"

definition parsePair :: "nat list \<Rightarrow> jsstring \<times> jsstring" where
  "parsePair bs =
     (decodeComponent (takeWhile (\<lambda>b. b \<noteq> 0x3D) bs),
      decodeComponent (drop 1 (dropWhile (\<lambda>b. b \<noteq> 0x3D) bs)))"

definition searchParams :: "jsstring \<Rightarrow> (jsstring \<times> jsstring) list" where
  "searchParams init =
     map parsePair
       (filter (\<lambda>p. p \<noteq> [])
          (splitOn 0x26 (concat (map utf8Encode (toScalars (stripPrefixChar 0x3F init))))))"

text \<open>\<open>sp.get(name)\<close>: the value of the first pair with that name, or \<open>null\<close>.\<close>

definition paramsGet :: "(jsstring \<times> jsstring) list \<Rightarrow> jsstring \<Rightarrow> jsstring option" where
  "paramsGet ps name = map_option snd (find (\<lambda>p. fst p = name) ps)"

subsection \<open>Well-formed strings\<close>



text \<open>The characters of an encoded component: the unreserved ones and the percent sign.\<close>

definition isUriChar :: "16 word \<Rightarrow> bool" where
  "isUriChar c \<longleftrightarrow> isUnreserved c \<or> c = 0x25"


section \<open>The page\<close>

text \<open>
  The elements the script looks up by id, the attributes it sets on them, and the
  closures it stores in \<open>onclick\<close>. A closure of \<open>renderReader\<close> holds the neighbour it
  was created for, which is \<open>undefined\<close> (\<open>None\<close>) where the collection has none.
\<close>

datatype elem =
    SiteTitle | SiteTitleFooter | SiteTagline | EmptyNote
  | LatestTitle | LatestDate | LatestImg | LatestOpen | ArchiveGrid
  | Reader | ReaderTitle | ReaderMeta | ReaderImg
  | BtnPrev | BtnNext | BtnLatest | BtnStart | BtnOpenLatest | BtnClose
  | DiscAccept | OpenDisclaimer | Disclaimer | PageError

datatype attr = Open | AriaDisabled | Src | Alt

datatype handler =
    GoPrev "entry option"
  | GoNext "entry option"
  | GoLatest "entry option"
  | OpenEntry jsval

record manifest =
  m_title :: "jsstring option"
  m_author :: "jsstring option"
  m_comics :: "entry list option"

text \<open>
  What \<open>res.json()\<close> returns for a body that is JSON: \<open>null\<close>, a value that is not an
  object with the manifest's fields (a number, a string, a boolean, an array: each
  property read of the script gives \<open>undefined\<close>), or a manifest.
\<close>

datatype parsed = JsonNull | JsonOther | JsonManifest manifest

datatype body = NotJson | Json parsed

text \<open>The outcome of \<open>fetch\<close>: a rejected promise, or a response with its \<open>ok\<close> flag.\<close>

datatype fetched = Rejected | Response bool body

text \<open>
  The state the script reads and writes: \<open>STATE\<close> (\<open>loaded\<close>, \<open>comics\<close>,
  \<open>currentIndex\<close>), the document (which elements exist, their text, attributes and
  \<open>onclick\<close> closures, the markup of the grid, the styles the script sets), the fragment
  of the location, the stored acknowledgment, whether \<open>init\<close> has registered its
  listeners, the images requested ahead, the console, and the variables of the swipe
  handlers.
\<close>

record page =
  loaded :: "parsed option"
  comics :: "entry list"
  currentIndex :: int
  present :: "elem \<Rightarrow> bool"
  textContent :: "elem \<Rightarrow> jsstring"
  attrs :: "elem \<Rightarrow> attr \<Rightarrow> jsstring option"
  onclick :: "elem \<Rightarrow> handler option"
  gridHtml :: jsstring
  emptyNoteDisplay :: jsstring
  currentTab :: "jsstring option"
  bodyOverflow :: jsstring
  rootOverflow :: jsstring
  fragment :: "jsstring option"
  storedFlag :: "jsstring option"
  storageFails :: bool
  wired :: bool
  preloads :: "jsstring list"
  consoleErrors :: "error list"
  touchStartX :: int
  touchStartY :: int
  touchActive :: bool

text \<open>
  A call either returns, leaving a page, or raises, leaving the page as it was when the
  exception left the call.
\<close>

datatype outcome = Done page | Thrown error page

definition andThen :: "outcome \<Rightarrow> (page \<Rightarrow> outcome) \<Rightarrow> outcome" where
  "andThen m f = (case m of Done s \<Rightarrow> f s | Thrown e s \<Rightarrow> Thrown e s)"

fun final :: "outcome \<Rightarrow> page" where
  "final (Done s) = s"
| "final (Thrown e s) = s"

text \<open>\<open>xs[i]\<close>: \<open>undefined\<close> outside the array.\<close>

definition nthOpt :: "'a list \<Rightarrow> int \<Rightarrow> 'a option" where
  "nthOpt xs i = (if 0 \<le> i \<and> i < int (length xs) then Some (xs ! nat i) else None)"

text \<open>\<open>xs.findIndex(p)\<close>, with \<open>None\<close> for \<open>-1\<close>.\<close>

fun findIndex :: "('a \<Rightarrow> bool) \<Rightarrow> 'a list \<Rightarrow> nat option" where
  "findIndex p [] = None"
| "findIndex p (x # xs) = (if p x then Some 0 else map_option Suc (findIndex p xs))"

subsection \<open>Element helpers\<close>

text \<open>
  \<^verbatim>\<open>function setText(id, text) { const el = document.getElementById(id); if (el) el.textContent = text; }
  function setAttr(id, attr, value) { const el = document.getElementById(id); if (el) el.setAttribute(attr, value); }\<close>
\<close>

definition setText :: "elem \<Rightarrow> jsstring \<Rightarrow> page \<Rightarrow> page" where
  "setText el t st = (if present st el then st\<lparr>textContent := (textContent st)(el := t)\<rparr> else st)"

definition setAttribute :: "elem \<Rightarrow> attr \<Rightarrow> jsstring \<Rightarrow> page \<Rightarrow> page" where
  "setAttribute el a v st = st\<lparr>attrs := (attrs st)(el := (attrs st el)(a \<mapsto> v))\<rparr>"

definition removeAttribute :: "elem \<Rightarrow> attr \<Rightarrow> page \<Rightarrow> page" where
  "removeAttribute el a st = st\<lparr>attrs := (attrs st)(el := (attrs st el)(a := None))\<rparr>"

definition setAttr :: "elem \<Rightarrow> attr \<Rightarrow> jsstring \<Rightarrow> page \<Rightarrow> page" where
  "setAttr el a v st = (if present st el then setAttribute el a v st else st)"

definition hasAttribute :: "page \<Rightarrow> elem \<Rightarrow> attr \<Rightarrow> bool" where
  "hasAttribute st el a \<longleftrightarrow> attrs st el a \<noteq> None"

text \<open>
  \<^verbatim>\<open>function setCurrentTab(tab) { ... }\<close> marks the tab button and shows the panel of
  that name; the page records the name.
\<close>

definition setCurrentTab :: "jsstring \<Rightarrow> page \<Rightarrow> page" where
  "setCurrentTab tab st = st\<lparr>currentTab := Some tab\<rparr>"

text \<open>
  \<^verbatim>\<open>function openReader() {
    const d = document.getElementById('reader');
    d.setAttribute('open', '');
    document.body.style.overflow = 'hidden';
  }
  function closeReader() {
    const d = document.getElementById('reader');
    d.removeAttribute('open');
    document.body.style.overflow = '';
  }\<close>
  Without the element, \<open>d\<close> is \<open>null\<close> and the method call raises a TypeError.
\<close>

definition openReader :: "page \<Rightarrow> outcome" where
  "openReader st =
     (if present st Reader
      then Done ((setAttribute Reader Open [] st)\<lparr>bodyOverflow := str ''hidden''\<rparr>)
      else Thrown TypeError st)"

definition closeReader :: "page \<Rightarrow> outcome" where
  "closeReader st =
     (if present st Reader
      then Done ((removeAttribute Reader Open st)\<lparr>bodyOverflow := []\<rparr>)
      else Thrown TypeError st)"

subsection \<open>Disclaimer gate\<close>

text \<open>
  \<^verbatim>\<open>function openDisclaimer() {
    const d = document.getElementById('disclaimer');
    if (!d) return;
    d.setAttribute('open', '');
    document.documentElement.style.overflow = 'hidden';
  }
  function closeDisclaimer() {
    const d = document.getElementById('disclaimer');
    if (!d) return;
    d.removeAttribute('open');
    document.documentElement.style.overflow = '';
  }
  function hasAcceptedDisclaimer() {
    try { return localStorage.getItem(DISCLAIMER_KEY) === 'true'; } catch { return false; }
  }
  function acceptDisclaimer() {
    try { localStorage.setItem(DISCLAIMER_KEY, 'true'); } catch {}
    closeDisclaimer();
  }\<close>
  \<open>storedFlag\<close> is the item stored under \<open>DISCLAIMER_KEY\<close>; \<open>storageFails\<close> says that
  access to \<open>localStorage\<close> raises.
\<close>

definition openDisclaimer :: "page \<Rightarrow> page" where
  "openDisclaimer st =
     (if \<not> present st Disclaimer then st
      else (setAttribute Disclaimer Open [] st)\<lparr>rootOverflow := str ''hidden''\<rparr>)"

definition closeDisclaimer :: "page \<Rightarrow> page" where
  "closeDisclaimer st =
     (if \<not> present st Disclaimer then st
      else (removeAttribute Disclaimer Open st)\<lparr>rootOverflow := []\<rparr>)"

definition hasAcceptedDisclaimer :: "page \<Rightarrow> bool" where
  "hasAcceptedDisclaimer st \<longleftrightarrow> \<not> storageFails st \<and> storedFlag st = Some (str ''true'')"

definition acceptDisclaimer :: "page \<Rightarrow> page" where
  "acceptDisclaimer st =
     closeDisclaimer (if storageFails st then st else st\<lparr>storedFlag := Some (str ''true'')\<rparr>)"

subsection \<open>Buttons and the fragment\<close>

text \<open>
  \<^verbatim>\<open>function setBtn(id, enabled, onClick) {
    const el = document.getElementById(id);
    if (!el) return;
    if (!enabled) {
      el.setAttribute('aria-disabled', 'true');
      el.onclick = null;
    } else {
      el.removeAttribute('aria-disabled');
      el.onclick = onClick;
    }
  }\<close>
\<close>

definition setBtn :: "elem \<Rightarrow> bool \<Rightarrow> handler \<Rightarrow> page \<Rightarrow> page" where
  "setBtn el enabled onClick st =
     (if \<not> present st el then st
      else if \<not> enabled
      then (setAttribute el AriaDisabled (str ''true'') st)\<lparr>onclick := (onclick st)(el := None)\<rparr>
      else (removeAttribute el AriaDisabled st)\<lparr>onclick := (onclick st)(el := Some onClick)\<rparr>)"

text \<open>
  \<^verbatim>\<open>function setHash(idOrKey) {
    const u = new URL(window.location.href);
    u.hash = `c=${encodeURIComponent(idOrKey)}`;
    history.replaceState(null, '', u.toString());
  }
  function getHashComic() {
    const h = (window.location.hash || '').replace(/^#/, '');
    const sp = new URLSearchParams(h);
    return sp.get('c');
  }\<close>
\<close>

definition setHash :: "jsval \<Rightarrow> page \<Rightarrow> outcome" where
  "setHash idOrKey st =
     (case encodeURIComponent (toString idOrKey) of
        Inl e \<Rightarrow> Thrown e st
      | Inr enc \<Rightarrow> Done (st\<lparr>fragment := hashSetter (str ''c='' @ enc)\<rparr>))"

definition getHashComic :: "page \<Rightarrow> jsstring option" where
  "getHashComic st =
     paramsGet (searchParams (stripPrefixChar 0x23 (hashGetter (fragment st)))) (str ''c'')"

subsection \<open>Rendering\<close>

text \<open>
  \<^verbatim>\<open>function renderGrid(comics) {
    const grid = document.getElementById('archiveGrid');
    if (!grid) return;
    grid.innerHTML = comics.map(c => { ... }).join('');
    grid.querySelectorAll('button[data-open]').forEach(btn => {
      btn.addEventListener('click', () => {
        const id = btn.getAttribute('data-open');
        openComicById(id);
      });
    });
  }\<close>
  The listeners of the tiles are the event \<open>ClickTile\<close> below.
\<close>

definition renderGrid :: "entry list \<Rightarrow> page \<Rightarrow> outcome" where
  "renderGrid cs st =
     (if \<not> present st ArchiveGrid then Done st
      else (case gridMarkup cs of
              Inl e \<Rightarrow> Thrown e st
            | Inr h \<Rightarrow> Done (st\<lparr>gridHtml := h\<rparr>)))"

text \<open>
  \<^verbatim>\<open>function renderLatest(comic) {
    setText('latestTitle', displayTitle(comic));
    setText('latestDate', comic.date || '');
    setAttr('latestImg', 'src', comic.image);
    setAttr('latestImg', 'alt', comic.alt || displayTitle(comic));
    const btn = document.getElementById('latestOpen');
    if (btn) btn.onclick = () => openComicById(comic.id);
  }\<close>
\<close>

definition renderLatest :: "entry \<Rightarrow> page \<Rightarrow> page" where
  "renderLatest comic st =
     (let s1 = setText LatestTitle (displayTitle comic) st;
          s2 = setText LatestDate (case c_date comic of Some d \<Rightarrow> d | None \<Rightarrow> []) s1;
          s3 = setAttr LatestImg Src (c_image comic) s2;
          s4 = setAttr LatestImg Alt (altOr comic (displayTitle comic)) s3
      in if present s4 LatestOpen
         then s4\<lparr>onclick := (onclick s4)(LatestOpen := Some (OpenEntry (c_id comic)))\<rparr>
         else s4)"

text \<open>
  \<^verbatim>\<open>function renderReader() {
    const comic = STATE.comics[STATE.currentIndex];
    const title = displayTitle(comic);
    setText('readerTitle', title);
    setText('readerMeta', displayMeta(comic));
    setAttr('readerImg', 'src', comic.image);
    setAttr('readerImg', 'alt', comic.alt || title);
    const prev = STATE.comics[STATE.currentIndex - 1];
    const next = STATE.comics[STATE.currentIndex + 1];
    setBtn('btnPrev', !!prev, () => { STATE.currentIndex -= 1; renderReader(); setHash(prev.id); });
    setBtn('btnNext', !!next, () => { STATE.currentIndex += 1; renderReader(); setHash(next.id); });
    const latest = STATE.comics[STATE.comics.length - 1];
    setBtn('btnLatest', !!latest, () => {
      STATE.currentIndex = STATE.comics.length - 1; renderReader(); setHash(latest.id); });
    [prev, next].filter(Boolean).forEach(c => { const img = new Image(); img.src = c.image; });
  }\<close>
  With the cursor outside the collection \<open>comic\<close> is \<open>undefined\<close>, and \<open>displayTitle\<close>
  raises a TypeError on reading its title.
\<close>

definition renderReader :: "page \<Rightarrow> outcome" where
  "renderReader st =
     (case nthOpt (comics st) (currentIndex st) of
        None \<Rightarrow> Thrown TypeError st
      | Some comic \<Rightarrow>
          (let title = displayTitle comic;
               s1 = setText ReaderTitle title st;
               s2 = setText ReaderMeta (displayMeta comic) s1;
               s3 = setAttr ReaderImg Src (c_image comic) s2;
               s4 = setAttr ReaderImg Alt (altOr comic title) s3;
               prev = nthOpt (comics st) (currentIndex st - 1);
               next = nthOpt (comics st) (currentIndex st + 1);
               s5 = setBtn BtnPrev (prev \<noteq> None) (GoPrev prev) s4;
               s6 = setBtn BtnNext (next \<noteq> None) (GoNext next) s5;
               latest = nthOpt (comics st) (int (length (comics st)) - 1);
               s7 = setBtn BtnLatest (latest \<noteq> None) (GoLatest latest) s6
           in Done (s7\<lparr>preloads := preloads s7 @
                 (case prev of None \<Rightarrow> [] | Some c \<Rightarrow> [c_image c]) @
                 (case next of None \<Rightarrow> [] | Some c \<Rightarrow> [c_image c])\<rparr>)))"

text \<open>\<open>setHash(x.id)\<close> for a captured \<open>x\<close>: reading the id of \<open>undefined\<close> raises.\<close>

definition setHashOf :: "entry option \<Rightarrow> page \<Rightarrow> outcome" where
  "setHashOf x st = (case x of None \<Rightarrow> Thrown TypeError st | Some c \<Rightarrow> setHash (c_id c) st)"

text \<open>
  \<^verbatim>\<open>function openComicById(id) {
    const idx = STATE.comics.findIndex(c => String(c.id) === String(id));
    if (idx === -1) return;
    STATE.currentIndex = idx;
    renderReader();
    setHash(id);
    openReader();
  }\<close>
\<close>

definition openComicById :: "jsval \<Rightarrow> page \<Rightarrow> outcome" where
  "openComicById v st =
     (case findIndex (\<lambda>c. toString (c_id c) = toString v) (comics st) of
        None \<Rightarrow> Done st
      | Some idx \<Rightarrow>
          andThen (andThen (renderReader (st\<lparr>currentIndex := int idx\<rparr>)) (setHash v)) openReader)"

text \<open>Running a closure stored in \<open>onclick\<close>.\<close>

fun runHandler :: "handler \<Rightarrow> page \<Rightarrow> outcome" where
  "runHandler (GoPrev prev) st =
     andThen (renderReader (st\<lparr>currentIndex := currentIndex st - 1\<rparr>)) (setHashOf prev)"
| "runHandler (GoNext next) st =
     andThen (renderReader (st\<lparr>currentIndex := currentIndex st + 1\<rparr>)) (setHashOf next)"
| "runHandler (GoLatest latest) st =
     andThen (renderReader (st\<lparr>currentIndex := int (length (comics st)) - 1\<rparr>)) (setHashOf latest)"
| "runHandler (OpenEntry v) st = openComicById v st"

text \<open>
  A click on an element with an \<open>onclick\<close> property, and
  \<open>document.getElementById(id)?.click()\<close>.
\<close>

definition click :: "elem \<Rightarrow> page \<Rightarrow> outcome" where
  "click el st = (case onclick st el of None \<Rightarrow> Done st | Some h \<Rightarrow> runHandler h st)"

definition clickIfPresent :: "elem \<Rightarrow> page \<Rightarrow> outcome" where
  "clickIfPresent el st = (if present st el then click el st else Done st)"

section \<open>Initialisation\<close>

text \<open>
  \<^verbatim>\<open>async function loadData() {
    const res = await fetch('comics.json', { cache: 'no-store' });
    if (!res.ok) throw new Error('Could not load comics.json');
    return await res.json();
  }\<close>
  A rejected \<open>fetch\<close> raises a TypeError, a body that is not JSON a SyntaxError;
  \<open>LoadError\<close> is the \<open>Error\<close> the function itself throws.
\<close>

definition loadData :: "fetched \<Rightarrow> error + parsed" where
  "loadData f =
     (case f of
        Rejected \<Rightarrow> Inl TypeError
      | Response ok b \<Rightarrow>
          if \<not> ok then Inl LoadError
          else (case b of NotJson \<Rightarrow> Inl SyntaxError | Json d \<Rightarrow> Inr d))"

text \<open>
  \<^verbatim>\<open>const cid = getHashComic();
  if (cid) {
    setCurrentTab('archive');
    ...
    openComicById(cid);
  }\<close>
  The listeners registered again in this branch are those already registered.
\<close>

definition openFromHash :: "page \<Rightarrow> outcome" where
  "openFromHash st =
     (case getHashComic st of
        None \<Rightarrow> Done st
      | Some cid \<Rightarrow>
          if cid = [] then Done st
          else openComicById (JStr cid) (setCurrentTab (str ''archive'') st))"

text \<open>
  The body of \<open>init\<close> after the data has arrived, for the fields \<open>title\<close>, \<open>author\<close> and
  \<open>comics\<close> read from it:
  \<^verbatim>\<open>STATE.comics = [...(data.comics || [])].sort(byIdAscending);
  setText('siteTitle', data.title || 'Webcomic');
  setText('siteTitleFooter', data.title || 'Webcomic');
  setText('siteTagline', data.author ? `by ${data.author}` : '');
  if (!STATE.comics.length) {
    const empty = document.getElementById('emptyNote');
    if (empty) empty.style.display = 'block';
    return;
  }
  renderLatest(STATE.comics[STATE.comics.length - 1]);
  renderGrid(STATE.comics);
  ... setCurrentTab('archive'); ... (listeners) ...
  const cid = getHashComic(); ...\<close>
\<close>

definition siteTitleOf :: "manifest \<Rightarrow> jsstring" where
  "siteTitleOf m = (case m_title m of Some t \<Rightarrow> if t \<noteq> [] then t else str ''Webcomic''
                    | None \<Rightarrow> str ''Webcomic'')"

definition taglineOf :: "manifest \<Rightarrow> jsstring" where
  "taglineOf m = (case m_author m of Some a \<Rightarrow> if a \<noteq> [] then str ''by '' @ a else []
                  | None \<Rightarrow> [])"

definition initWith :: "(jsstring \<Rightarrow> jsstring \<Rightarrow> int) \<Rightarrow> manifest \<Rightarrow> page \<Rightarrow> outcome" where
  "initWith lc m st =
     (let s1 = st\<lparr>comics := sortBy (byIdAscending lc)
                    (case m_comics m of Some cs \<Rightarrow> cs | None \<Rightarrow> [])\<rparr>;
          s2 = setText SiteTitle (siteTitleOf m) s1;
          s3 = setText SiteTitleFooter (siteTitleOf m) s2;
          s4 = setText SiteTagline (taglineOf m) s3
      in if comics s4 = []
         then Done (if present s4 EmptyNote then s4\<lparr>emptyNoteDisplay := str ''block''\<rparr> else s4)
         else andThen (renderGrid (comics s4) (renderLatest (last (comics s4)) s4))
                (\<lambda>s. openFromHash ((setCurrentTab (str ''archive'') s)\<lparr>wired := True\<rparr>)))"

text \<open>
  The \<open>try\<close> block from \<open>loadData\<close> on. Reading \<open>data.comics\<close> of \<open>null\<close> raises a
  TypeError.
\<close>

definition initBody :: "(jsstring \<Rightarrow> jsstring \<Rightarrow> int) \<Rightarrow> fetched \<Rightarrow> page \<Rightarrow> outcome" where
  "initBody lc f st =
     (case loadData f of
        Inl e \<Rightarrow> Thrown e st
      | Inr d \<Rightarrow>
          (case d of
             JsonNull \<Rightarrow> Thrown TypeError (st\<lparr>loaded := Some d\<rparr>)
           | JsonOther \<Rightarrow>
               initWith lc \<lparr>m_title = None, m_author = None, m_comics = None\<rparr>
                 (st\<lparr>loaded := Some d\<rparr>)
           | JsonManifest m \<Rightarrow> initWith lc m (st\<lparr>loaded := Some d\<rparr>)))"

definition staticMessage :: jsstring where
  "staticMessage = str ''Could not load site data. Check comics.json and image paths.''"

text \<open>
  \<^verbatim>\<open>async function init() {
    try {
      if (!hasAcceptedDisclaimer()) openDisclaimer();
      const data = await loadData();
      STATE.data = data;
      ...
    } catch (e) {
      console.error(e);
      const el = document.getElementById('pageError');
      if (el) el.textContent = 'Could not load site data. Check comics.json and image paths.';
    }
  }\<close>
\<close>

definition init :: "(jsstring \<Rightarrow> jsstring \<Rightarrow> int) \<Rightarrow> fetched \<Rightarrow> page \<Rightarrow> page" where
  "init lc f st =
     (case initBody lc f (if hasAcceptedDisclaimer st then st else openDisclaimer st) of
        Done s \<Rightarrow> s
      | Thrown e s \<Rightarrow> setText PageError staticMessage (s\<lparr>consoleErrors := consoleErrors s @ [e]\<rparr>))"

section \<open>Input handlers\<close>

datatype key = Escape | ArrowLeft | ArrowRight | OtherKey

text \<open>
  The events of the page: a click whose target is the element itself, a click on the
  tile whose \<open>data-open\<close> attribute holds the given string, a click on a tab, a key
  press, and the two touch events with the coordinates of the touch (whole pixels).
\<close>

datatype event =
    ClickOn elem
  | ClickTile jsstring
  | ClickTab jsstring
  | KeyDown key
  | TouchStart int int
  | TouchEnd int int

text \<open>
  \<^verbatim>\<open>window.addEventListener('keydown', (e) => {
    if (e.key === 'Escape') {
      if (document.getElementById('disclaimer')?.hasAttribute('open')) return;
      closeReader();
    }
    const r = document.getElementById('reader');
    if (!r || !r.hasAttribute('open')) return;
    if (e.key === 'ArrowLeft') document.getElementById('btnPrev')?.click();
    if (e.key === 'ArrowRight') document.getElementById('btnNext')?.click();
  });\<close>
\<close>

definition keydown :: "key \<Rightarrow> page \<Rightarrow> outcome" where
  "keydown k st =
     (if k = Escape \<and> present st Disclaimer \<and> hasAttribute st Disclaimer Open then Done st
      else andThen (if k = Escape then closeReader st else Done st) (\<lambda>s.
        if \<not> present s Reader \<or> \<not> hasAttribute s Reader Open then Done s
        else andThen (if k = ArrowLeft then clickIfPresent BtnPrev s else Done s) (\<lambda>s'.
          if k = ArrowRight then clickIfPresent BtnNext s' else Done s')))"

text \<open>
  \<^verbatim>\<open>swipeTarget.addEventListener('touchstart', (e) => {
    if (!document.getElementById('reader')?.hasAttribute('open')) return;
    const t = e.touches[0];
    touchStartX = t.clientX; touchStartY = t.clientY;
    touchActive = true;
  }, { passive: true });
  swipeTarget.addEventListener('touchend', (e) => {
    if (!touchActive) return;
    touchActive = false;
    const t = e.changedTouches[0];
    const dx = t.clientX - touchStartX;
    const dy = t.clientY - touchStartY;
    if (Math.abs(dx) < 60 || Math.abs(dx) < Math.abs(dy)) return;
    if (dx < 0) document.getElementById('btnNext')?.click();
    if (dx > 0) document.getElementById('btnPrev')?.click();
  }, { passive: true });\<close>
  The swipe target is the parent of the reader's image, or the reader.
\<close>

definition touchstart :: "int \<Rightarrow> int \<Rightarrow> page \<Rightarrow> page" where
  "touchstart x y st =
     (if \<not> (present st Reader \<and> hasAttribute st Reader Open) then st
      else st\<lparr>touchStartX := x, touchStartY := y, touchActive := True\<rparr>)"

definition touchend :: "int \<Rightarrow> int \<Rightarrow> page \<Rightarrow> outcome" where
  "touchend x y st =
     (if \<not> touchActive st then Done st
      else (let s = st\<lparr>touchActive := False\<rparr>;
                dx = x - touchStartX st;
                dy = y - touchStartY st
            in if \<bar>dx\<bar> < 60 \<or> \<bar>dx\<bar> < \<bar>dy\<bar> then Done s
               else andThen (if dx < 0 then clickIfPresent BtnNext s else Done s) (\<lambda>s'.
                      if dx > 0 then clickIfPresent BtnPrev s' else Done s')))"

text \<open>
  The listeners \<open>init\<close> registers with \<open>addEventListener\<close>, each on an element that
  exists:
  \<^verbatim>\<open>discAccept.addEventListener('click', acceptDisclaimer);
  openDisc.addEventListener('click', (e) => { e.preventDefault(); openDisclaimer(); });
  disc.addEventListener('click', (e) => { if (e.target === disc) { /* no-op */ } });
  btnStart.addEventListener('click', () => openComicById(STATE.comics[0].id));
  btnOpenLatest.addEventListener('click', () => openComicById(STATE.comics[STATE.comics.length - 1].id));
  close.addEventListener('click', closeReader);
  reader.addEventListener('click', (e) => { if (e.target.id === 'reader') closeReader(); });\<close>
\<close>

definition openAt :: "int \<Rightarrow> page \<Rightarrow> outcome" where
  "openAt i st =
     (case nthOpt (comics st) i of
        None \<Rightarrow> Thrown TypeError st
      | Some c \<Rightarrow> openComicById (c_id c) st)"

definition listener :: "elem \<Rightarrow> page \<Rightarrow> outcome" where
  "listener el st =
     (if el = DiscAccept then Done (acceptDisclaimer st)
      else if el = OpenDisclaimer then Done (openDisclaimer st)
      else if el = Disclaimer then Done st
      else if el = BtnStart then openAt 0 st
      else if el = BtnOpenLatest then openAt (int (length (comics st)) - 1) st
      else if el = BtnClose then closeReader st
      else if el = Reader then closeReader st
      else Done st)"

text \<open>
  What an event does to the page. The script assigns \<open>onclick\<close> on the three
  navigation buttons of the reader and on \<open>latestOpen\<close>; these closures run whether
  or not \<open>init\<close> got as far as registering its listeners, the listeners only after it
  did. A tile is taken to exist for every string.
\<close>

definition handle :: "event \<Rightarrow> page \<Rightarrow> outcome" where
  "handle ev st =
     (case ev of
        ClickOn el \<Rightarrow>
          if \<not> present st el then Done st
          else if el \<in> {BtnPrev, BtnNext, BtnLatest, LatestOpen} then click el st
          else if wired st then listener el st
          else Done st
      | ClickTile v \<Rightarrow>
          if wired st \<and> present st ArchiveGrid then openComicById (JStr v) st else Done st
      | ClickTab t \<Rightarrow> Done (if wired st then setCurrentTab t st else st)
      | KeyDown k \<Rightarrow> if wired st then keydown k st else Done st
      | TouchStart x y \<Rightarrow>
          Done (if wired st \<and> (present st ReaderImg \<or> present st Reader) then touchstart x y st
                else st)
      | TouchEnd x y \<Rightarrow>
          if wired st \<and> (present st ReaderImg \<or> present st Reader) then touchend x y st
          else Done st)"

text \<open>A sequence of events; an exception ends the handler it is raised in, not the page.\<close>

fun run :: "event list \<Rightarrow> page \<Rightarrow> page" where
  "run [] st = st"
| "run (ev # evs) st = run evs (final (handle ev st))"

section \<open>The cursor invariant\<close>

text \<open>
  A closure fits the element it is stored on and the cursor: \<open>btnPrev\<close> holds a step
  back only while there is an entry before the cursor, \<open>btnNext\<close> a step forward only
  while there is one after it.
\<close>

definition handlerFits :: "page \<Rightarrow> elem \<Rightarrow> handler \<Rightarrow> bool" where
  "handlerFits st el h =
     (case h of
        GoPrev p \<Rightarrow> el = BtnPrev \<and> 1 \<le> currentIndex st
      | GoNext n \<Rightarrow> el = BtnNext \<and> currentIndex st + 1 < int (length (comics st))
      | GoLatest l \<Rightarrow> el = BtnLatest
      | OpenEntry v \<Rightarrow> el = LatestOpen)"

text \<open>
  The cursor is an index of the collection, and every closure on an element of the page
  fits.
\<close>

definition cursorInv :: "page \<Rightarrow> bool" where
  "cursorInv st \<longleftrightarrow>
     0 \<le> currentIndex st \<and> currentIndex st < int (length (comics st)) \<and>
     (\<forall>el \<in> {BtnPrev, BtnNext, BtnLatest, LatestOpen}.
        \<forall>h. present st el \<and> onclick st el = Some h \<longrightarrow> handlerFits st el h)"

text \<open>
  Two pages agree on what no handler but the accept button's writes: the collection, the
  elements of the document, the registered listeners and the stored acknowledgment.
\<close>

definition sameStore :: "page \<Rightarrow> page \<Rightarrow> bool" where
  "sameStore s st \<longleftrightarrow>
     comics s = comics st \<and> present s = present st \<and> wired s = wired st \<and>
     storedFlag s = storedFlag st \<and> storageFails s = storageFails st"

text \<open>The collection \<open>init\<close> stores for a manifest.\<close>

definition sortedComics :: "(jsstring \<Rightarrow> jsstring \<Rightarrow> int) \<Rightarrow> manifest \<Rightarrow> entry list" where
  "sortedComics lc m = sortBy (byIdAscending lc) (case m_comics m of Some cs \<Rightarrow> cs | None \<Rightarrow> [])"

text \<open>The page \<open>init\<close> hands to the \<open>try\<close> block, and what the \<open>catch\<close> block makes of a page.\<close>

definition gated :: "page \<Rightarrow> page" where
  "gated st = (if hasAcceptedDisclaimer st then st else openDisclaimer st)"

definition caught :: "error \<Rightarrow> page \<Rightarrow> page" where
  "caught e s = setText PageError staticMessage (s\<lparr>consoleErrors := consoleErrors s @ [e]\<rparr>)"

section \<open>Example data\<close>

definition entryWithId :: "jsval \<Rightarrow> entry" where
  "entryWithId v = \<lparr>c_id = v, c_title = None, c_date = None, c_image = [], c_alt = None\<rparr>"

definition roundedA :: entry where "roundedA = entryWithId (JStr (str ''a9007199254740993''))"

definition roundedB :: entry where "roundedB = entryWithId (JStr (str ''b9007199254740992''))"

definition scriptEntry :: entry where
  "scriptEntry = \<lparr>c_id = JStr (str ''7''), c_title = Some (str ''<script>''), c_date = None,
     c_image = str ''a.png'', c_alt = None\<rparr>"

definition numberedEntry :: entry where
  "numberedEntry = \<lparr>c_id = JNum 5, c_title = None, c_date = None, c_image = str ''5.png'',
     c_alt = None\<rparr>"

text \<open>
  A page as the script finds it: \<open>STATE\<close> and the swipe variables as declared, every
  element of the document there, nothing set, no fragment, nothing stored.
\<close>

definition blankPage :: page where
  "blankPage = \<lparr>loaded = None, comics = [], currentIndex = 0, present = (\<lambda>el. True),
     textContent = (\<lambda>el. []), attrs = (\<lambda>el a. None), onclick = (\<lambda>el. None), gridHtml = [],
     emptyNoteDisplay = [], currentTab = None, bodyOverflow = [], rootOverflow = [],
     fragment = None, storedFlag = None, storageFails = False, wired = False, preloads = [],
     consoleErrors = [], touchStartX = 0, touchStartY = 0, touchActive = False\<rparr>"

text \<open>
  The manifest
  \<^verbatim>\<open>{comics:[{id:"002",title:"B",image:"b.png"},{id:"001",title:"A",image:"a.png"}]}\<close>.
\<close>

definition comicB :: entry where
  "comicB = \<lparr>c_id = JStr (str ''002''), c_title = Some (str ''B''), c_date = None,
     c_image = str ''b.png'', c_alt = None\<rparr>"

definition comicA :: entry where
  "comicA = \<lparr>c_id = JStr (str ''001''), c_title = Some (str ''A''), c_date = None,
     c_image = str ''a.png'', c_alt = None\<rparr>"

definition twoComics :: manifest where
  "twoComics = \<lparr>m_title = None, m_author = None, m_comics = Some [comicB, comicA]\<rparr>"

text \<open>The page with the two entries in sorted order and the cursor on the first.\<close>

definition readerPage :: page where
  "readerPage = blankPage\<lparr>comics := [comicA, comicB]\<rparr>"

text \<open>A sequence of events.\<close>

definition someEvents :: "event list" where
  "someEvents = [ClickOn BtnStart, ClickOn BtnNext, ClickOn BtnNext, KeyDown ArrowLeft,
     ClickTile (str ''002''), TouchStart 200 10, TouchEnd 20 10, ClickOn BtnLatest, KeyDown Escape]"


text \<open>The blank page with the disclaimer open and the listeners registered.\<close>

definition gatePage :: page where
  "gatePage = (openDisclaimer blankPage)\<lparr>wired := True\<rparr>"


section \<open>Escaping of the grid\<close>

subsection \<open>Escaping\<close>







lemma escapeHtml_JStr: "escapeHtml (JStr s) = Inr (replaceSpecials s)"
  by (simp add: escapeHtml_def replaceSpecials_def)



lemma bindE_Inl: "bindE m f = Inl e \<longleftrightarrow> m = Inl e \<or> (\<exists>x. m = Inr x \<and> f x = Inl e)"
  by (cases m) (simp_all add: bindE_def)




lemma trim_script: "trim (str ''<script>'') = str ''<script>''"
  by (simp add: trim_def str_def ch_def isWhiteSpace_def)


lemma displayTitle_script: "displayTitle scriptEntry = str ''<script>''"
  using trim_script by (simp add: displayTitle_def scriptEntry_def str_def ch_def)





section \<open>Ids that are not strings\<close>

lemma escapeHtml_error: "escapeHtml v = Inl e \<Longrightarrow> e = TypeError"
  by (cases v) (auto simp: escapeHtml_def split: if_splits)

lemma escapeHtml_raises_iff:
  "escapeHtml v = Inl TypeError \<longleftrightarrow> truthy v \<and> (\<forall>s. v \<noteq> JStr s)"
  by (cases v) (auto simp: escapeHtml_def)

lemma escapeHtml_returns_iff:
  "(\<exists>t. escapeHtml v = Inr t) \<longleftrightarrow> \<not> truthy v \<or> (\<exists>s. v = JStr s)"
  by (cases v) (auto simp: escapeHtml_def)

lemma tile_raises: "escapeHtml (c_id c) = Inl e \<Longrightarrow> tile c = Inl e"
  by (simp add: tile_def Let_def bindE_def)

lemma tile_error: "tile c = Inl e \<Longrightarrow> e = TypeError"
  by (auto simp: tile_def Let_def bindE_Inl escapeHtml_JStr dest: escapeHtml_error split: if_splits)

lemma gridMarkup_error: "gridMarkup cs = Inl e \<Longrightarrow> e = TypeError"
  by (induction cs) (auto simp: bindE_Inl dest: tile_error)

lemma gridMarkup_raises:
  "c \<in> set cs \<Longrightarrow> tile c = Inl e \<Longrightarrow> \<exists>e'. gridMarkup cs = Inl e'"
proof (induction cs)
  case Nil
  then show ?case by simp
next
  case (Cons x xs)
  show ?case
  proof (cases "tile x")
    case (Inl a)
    then show ?thesis by (simp add: bindE_def)
  next
    case (Inr h)
    with Cons.prems have "c \<in> set xs" by auto
    with Cons.IH Cons.prems obtain e' where "gridMarkup xs = Inl e'" by blast
    with Inr show ?thesis by (simp add: bindE_def)
  qed
qed

lemma gridMarkup_TypeError:
  assumes "c \<in> set cs" "truthy (c_id c)" "\<forall>s. c_id c \<noteq> JStr s"
  shows "gridMarkup cs = Inl TypeError"
proof -
  from assms have "escapeHtml (c_id c) = Inl TypeError"
    by (simp add: escapeHtml_raises_iff)
  then have "tile c = Inl TypeError" by (rule tile_raises)
  with assms(1) obtain e' where "gridMarkup cs = Inl e'"
    using gridMarkup_raises by blast
  then show ?thesis using gridMarkup_error by blast
qed

text \<open>
  C8. \<open>escapeHtml\<close> returns exactly for strings and falsy values; for every truthy value
  that is not a string, in particular a number other than zero, it raises a TypeError,
  and so does the rendering of a grid that holds an entry with such an id.
\<close>

theorem escapeHtml_raises_on_non_string:
  "((\<exists>t. escapeHtml v = Inr t) \<longleftrightarrow> \<not> truthy v \<or> (\<exists>s. v = JStr s)) \<and>
   (truthy v \<and> (\<forall>s. v \<noteq> JStr s) \<longrightarrow> escapeHtml v = Inl TypeError) \<and>
   (n \<noteq> 0 \<longrightarrow> escapeHtml (JNum n) = Inl TypeError) \<and>
   (c \<in> set cs \<and> truthy (c_id c) \<and> (\<forall>s. c_id c \<noteq> JStr s) \<longrightarrow>
      gridMarkup cs = Inl TypeError \<and>
      (present st ArchiveGrid \<longrightarrow> renderGrid cs st = Thrown TypeError st))"
proof (intro conjI impI)
  show "(\<exists>t. escapeHtml v = Inr t) \<longleftrightarrow> \<not> truthy v \<or> (\<exists>s. v = JStr s)"
    by (rule escapeHtml_returns_iff)
  show "escapeHtml v = Inl TypeError" if "truthy v \<and> (\<forall>s. v \<noteq> JStr s)"
    using that by (simp add: escapeHtml_raises_iff)
  show "escapeHtml (JNum n) = Inl TypeError" if "n \<noteq> 0"
    using that by (simp add: escapeHtml_def)
  show g: "gridMarkup cs = Inl TypeError"
    if "c \<in> set cs \<and> truthy (c_id c) \<and> (\<forall>s. c_id c \<noteq> JStr s)"
    using that gridMarkup_TypeError by blast
  show "renderGrid cs st = Thrown TypeError st"
    if "c \<in> set cs \<and> truthy (c_id c) \<and> (\<forall>s. c_id c \<noteq> JStr s)" "present st ArchiveGrid"
    using g [OF that(1)] that(2) by (simp add: renderGrid_def)
qed

text \<open>A grid with an entry whose id is the number 5.\<close>

theorem escapeHtml_raises_on_non_string_witness:
  "escapeHtml (JNum 5) = Inl TypeError \<and>
   gridMarkup [scriptEntry, numberedEntry] = Inl TypeError \<and>
   (\<exists>t. escapeHtml (JStr (str ''5'')) = Inr t) \<and>
   (\<exists>t. escapeHtml (JNum 0) = Inr t)"
proof -
  have a: "numberedEntry \<in> set [scriptEntry, numberedEntry] \<and> truthy (c_id numberedEntry) \<and>
      (\<forall>s. c_id numberedEntry \<noteq> JStr s)"
    by (simp add: numberedEntry_def)
  have b: "(5::int) \<noteq> 0" by simp
  from escapeHtml_raises_on_non_string [of "JNum 0" 5 numberedEntry "[scriptEntry, numberedEntry]"] a b
    escapeHtml_raises_on_non_string [of "JStr (str ''5'')" 5 numberedEntry "[scriptEntry, numberedEntry]"]
  show ?thesis by simp
qed

section \<open>The order of the collection\<close>

lemma consistentD1: "consistent cmp \<Longrightarrow> sgn (cmp x y) = - sgn (cmp y x)"
  unfolding consistent_def by blast

lemma consistentD2: "consistent cmp \<Longrightarrow> cmp x y \<le> 0 \<Longrightarrow> cmp y z \<le> 0 \<Longrightarrow> cmp x z \<le> 0"
  unfolding consistent_def by blast

lemma consistent_total: "consistent cmp \<Longrightarrow> \<not> cmp x y \<le> 0 \<Longrightarrow> cmp y x \<le> 0"
  using consistentD1 [of cmp x y] by (simp add: sgn_if split: if_splits)

lemma consistent_localeCompareNumeric: "consistent localeCompareNumeric"
  unfolding consistent_def localeCompareNumeric_def
  by (auto simp: sgn_if)

lemma byId_antisym:
  assumes "consistent lc"
  shows "sgn (byIdAscending lc a b) = - sgn (byIdAscending lc b a)"
proof -
  have lc: "sgn (lc (toString (orEmpty (c_id a))) (toString (orEmpty (c_id b)))) =
      - sgn (lc (toString (orEmpty (c_id b))) (toString (orEmpty (c_id a))))"
    using assms by (rule consistentD1)
  show ?thesis
  proof (cases "idToNumber (c_id a)"; cases "idToNumber (c_id b)")
    fix x y
    assume "idToNumber (c_id a) = Finite x" "idToNumber (c_id b) = Finite y"
    then show ?thesis
      using lc by (cases "x = y") (simp_all add: byIdAscending_def sgn_if)
  qed (use lc in \<open>simp_all add: byIdAscending_def\<close>)
qed

lemma byId_le_iff:
  "byIdAscending lc a b \<le> 0 \<longleftrightarrow>
     (isFinite (idToNumber (c_id a)) \<and> \<not> isFinite (idToNumber (c_id b))) \<or>
     (\<exists>x y. idToNumber (c_id a) = Finite x \<and> idToNumber (c_id b) = Finite y \<and> x < y) \<or>
     ((isFinite (idToNumber (c_id a)) \<longrightarrow> idToNumber (c_id a) = idToNumber (c_id b)) \<and>
      (isFinite (idToNumber (c_id a)) \<longleftrightarrow> isFinite (idToNumber (c_id b))) \<and>
      lc (toString (orEmpty (c_id a))) (toString (orEmpty (c_id b))) \<le> 0)"
  by (cases "idToNumber (c_id a)"; cases "idToNumber (c_id b)")
    (auto simp: byIdAscending_def)

lemma byId_trans:
  assumes "consistent lc" "byIdAscending lc a b \<le> 0" "byIdAscending lc b c \<le> 0"
  shows "byIdAscending lc a c \<le> 0"
proof -
  have lc: "lc x y \<le> 0 \<Longrightarrow> lc y z \<le> 0 \<Longrightarrow> lc x z \<le> 0" for x y z
    using assms(1) by (rule consistentD2)
  from assms(2,3) show ?thesis
    unfolding byId_le_iff
    by (cases "idToNumber (c_id a)"; cases "idToNumber (c_id b)"; cases "idToNumber (c_id c)")
      (auto intro: lc)
qed

lemma byId_consistent: "consistent lc \<Longrightarrow> consistent (byIdAscending lc)"
  unfolding consistent_def [of "byIdAscending lc"]
  using byId_antisym byId_trans by blast

lemma byId_zero_iff:
  "byIdAscending lc a b = 0 \<longleftrightarrow>
     (isFinite (idToNumber (c_id a)) \<longleftrightarrow> isFinite (idToNumber (c_id b))) \<and>
     (isFinite (idToNumber (c_id a)) \<longrightarrow> idToNumber (c_id a) = idToNumber (c_id b)) \<and>
     lc (toString (orEmpty (c_id a))) (toString (orEmpty (c_id b))) = 0"
  by (cases "idToNumber (c_id a)"; cases "idToNumber (c_id b)")
    (auto simp: byIdAscending_def)

lemma byId_numberLe: "byIdAscending lc a b \<le> 0 \<Longrightarrow> numberLe (idToNumber (c_id a)) (idToNumber (c_id b))"
  by (cases "idToNumber (c_id a)"; cases "idToNumber (c_id b)")
    (auto simp: byIdAscending_def split: if_splits)

lemma set_insertBy: "set (insertBy cmp x xs) = insert x (set xs)"
  by (induction xs) auto

lemma mset_insertBy: "mset (insertBy cmp x xs) = add_mset x (mset xs)"
  by (induction xs) auto

lemma mset_sortBy: "mset (sortBy cmp xs) = mset xs"
  by (induction xs) (simp_all add: sortBy_def mset_insertBy)

lemma sorted_insertBy:
  assumes "consistent cmp" "sorted_wrt (\<lambda>a b. cmp a b \<le> 0) xs"
  shows "sorted_wrt (\<lambda>a b. cmp a b \<le> 0) (insertBy cmp x xs)"
  using assms(2)
proof (induction xs)
  case Nil
  then show ?case by simp
next
  case (Cons y ys)
  show ?case
  proof (cases "cmp x y \<le> 0")
    case True
    with Cons.prems show ?thesis
      by (auto intro: consistentD2 [OF assms(1)])
  next
    case False
    then have "cmp y x \<le> 0" using assms(1) by (rule consistent_total [rotated])
    with False Cons show ?thesis by (auto simp: set_insertBy)
  qed
qed

lemma sorted_sortBy:
  "consistent cmp \<Longrightarrow> sorted_wrt (\<lambda>a b. cmp a b \<le> 0) (sortBy cmp xs)"
  by (induction xs) (simp_all add: sortBy_def sorted_insertBy)

lemma sortBy_by_number:
  assumes "consistent lc"
  shows "sorted_wrt (\<lambda>a b. numberLe (idToNumber (c_id a)) (idToNumber (c_id b)))
           (sortBy (byIdAscending lc) xs)"
  by (rule sorted_wrt_mono_rel [OF _ sorted_sortBy [OF byId_consistent [OF assms]]])
    (simp add: byId_numberLe)

lemma dropBits_small: "n < 2 ^ 53 \<Longrightarrow> dropBits n = 0"
  by (subst dropBits.simps) simp

lemma dropBits_992: "dropBits 9007199254740992 = 1"
  by (simp add: dropBits.simps)

lemma roundTiesEven_exact: "n \<le> 2 ^ 53 \<Longrightarrow> roundTiesEven n = n"
proof (cases "n < 2 ^ 53")
  case True
  then show ?thesis by (simp add: roundTiesEven_def dropBits_small)
next
  case False
  assume "n \<le> 2 ^ 53"
  with False have "n = 2 ^ 53" by simp
  then show ?thesis by (simp add: roundTiesEven_def dropBits_992)
qed

lemma toNumber_exact: "n \<le> 2 ^ 53 \<Longrightarrow> toNumber n = Finite n"
proof -
  assume n: "n \<le> 2 ^ 53"
  have "(2::nat) ^ 53 < 2 ^ 1024" by simp
  with n have "n < 2 ^ 1024" by (rule le_less_trans)
  with n show ?thesis by (simp add: toNumber_def roundTiesEven_exact)
qed

lemma idToNumber_exact:
  "matchDigits (toString (orEmpty v)) = Some ds \<Longrightarrow> digitsValue ds \<le> 2 ^ 53 \<Longrightarrow>
   idToNumber v = Finite (digitsValue ds)"
  by (simp add: idToNumber_def toNumber_exact)

lemma idToNumber_none: "matchDigits (toString (orEmpty v)) = None \<Longrightarrow> idToNumber v = NaN"
  by (simp add: idToNumber_def)

lemma byId_less:
  "idToNumber (c_id a) = Finite x \<Longrightarrow> idToNumber (c_id b) = Finite y \<Longrightarrow> x < y \<Longrightarrow>
   byIdAscending lc a b < 0 \<and> 0 < byIdAscending lc b a"
  by (simp add: byIdAscending_def)

lemma byId_finite_first:
  "isFinite (idToNumber (c_id a)) \<Longrightarrow> \<not> isFinite (idToNumber (c_id b)) \<Longrightarrow>
   byIdAscending lc a b < 0 \<and> 0 < byIdAscending lc b a"
  by (simp add: byIdAscending_def)

lemma num_002: "idToNumber (JStr (str ''002'')) = Finite 2"
  by (simp add: idToNumber_def matchDigits_def str_def ch_def isDigit_def digitsValue_def
      toNumber_def roundTiesEven_def dropBits_small)

lemma num_001: "idToNumber (JStr (str ''001'')) = Finite 1"
  by (simp add: idToNumber_def matchDigits_def str_def ch_def isDigit_def digitsValue_def
      toNumber_def roundTiesEven_def dropBits_small)

lemma num_abc: "idToNumber (JStr (str ''abc'')) = NaN"
  by (simp add: idToNumber_def matchDigits_def str_def ch_def isDigit_def)

lemma sort_scenario:
  "sortBy (byIdAscending lc)
     [entryWithId (JStr (str ''abc'')), entryWithId (JStr (str ''002'')), entryWithId (JStr (str ''001''))] =
     [entryWithId (JStr (str ''001'')), entryWithId (JStr (str ''002'')), entryWithId (JStr (str ''abc''))]"
  by (simp add: sortBy_def byIdAscending_def entryWithId_def num_001 num_002 num_abc)

lemma dropBits_993: "dropBits 9007199254740993 = 1"
  by (simp add: dropBits.simps)

text \<open>
  C3, as the script computes it. For a consistent collation \<open>byIdAscending\<close> is a total
  preorder: the comparisons of \<open>a\<close> with \<open>b\<close> and of \<open>b\<close> with \<open>a\<close> have opposite
  signs, and the order is transitive. It returns 0 exactly when the two ids parse to the
  same finite number, or neither parses to one, and the collation of the two id strings
  returns 0.
\<close>

theorem byIdAscending_total_preorder:
  "(consistent lc \<longrightarrow>
      sgn (byIdAscending lc a b) = - sgn (byIdAscending lc b a) \<and>
      (byIdAscending lc a b \<le> 0 \<and> byIdAscending lc b c \<le> 0 \<longrightarrow> byIdAscending lc a c \<le> 0)) \<and>
   (byIdAscending lc a b = 0 \<longleftrightarrow>
      (isFinite (idToNumber (c_id a)) \<longleftrightarrow> isFinite (idToNumber (c_id b))) \<and>
      (isFinite (idToNumber (c_id a)) \<longrightarrow> idToNumber (c_id a) = idToNumber (c_id b)) \<and>
      lc (toString (orEmpty (c_id a))) (toString (orEmpty (c_id b))) = 0)"
proof (intro conjI impI)
  show "sgn (byIdAscending lc a b) = - sgn (byIdAscending lc b a)" if "consistent lc"
    using that by (rule byId_antisym)
  show "byIdAscending lc a c \<le> 0"
    if "consistent lc" "byIdAscending lc a b \<le> 0 \<and> byIdAscending lc b c \<le> 0"
    using that byId_trans by blast
  show "byIdAscending lc a b = 0 \<longleftrightarrow>
      (isFinite (idToNumber (c_id a)) \<longleftrightarrow> isFinite (idToNumber (c_id b))) \<and>
      (isFinite (idToNumber (c_id a)) \<longrightarrow> idToNumber (c_id a) = idToNumber (c_id b)) \<and>
      lc (toString (orEmpty (c_id a))) (toString (orEmpty (c_id b))) = 0"
    by (rule byId_zero_iff)
qed

lemma num_02: "idToNumber (JStr (str ''02'')) = Finite 2"
  by (simp add: idToNumber_def matchDigits_def str_def ch_def isDigit_def digitsValue_def
      toNumber_def roundTiesEven_def dropBits_small)

lemma num_2: "idToNumber (JStr (str ''2'')) = Finite 2"
  by (simp add: idToNumber_def matchDigits_def str_def ch_def isDigit_def digitsValue_def
      toNumber_def roundTiesEven_def dropBits_small)

lemma lc_02_2: "localeCompareNumeric (str ''02'') (str ''2'') = 0"
  by (simp add: localeCompareNumeric_def str_def ch_def isDigit_def digitsValue_def)

text \<open>The ids \<open>02\<close> and \<open>2\<close> differ as strings and compare as equal.\<close>

theorem byIdAscending_tie_counterexample:
  "toString (orEmpty (c_id (entryWithId (JStr (str ''02''))))) \<noteq>
     toString (orEmpty (c_id (entryWithId (JStr (str ''2''))))) \<and>
   byIdAscending localeCompareNumeric (entryWithId (JStr (str ''02''))) (entryWithId (JStr (str ''2''))) = 0"
  by (simp add: byIdAscending_def entryWithId_def num_02 num_2 lc_02_2) (simp add: str_def)

text \<open>The ids \<open>001\<close>, \<open>002\<close> and \<open>abc\<close> under the numeric collation.\<close>

theorem byIdAscending_total_preorder_witness:
  "sgn (byIdAscending localeCompareNumeric (entryWithId (JStr (str ''001''))) (entryWithId (JStr (str ''002'')))) =
     - sgn (byIdAscending localeCompareNumeric (entryWithId (JStr (str ''002''))) (entryWithId (JStr (str ''001'')))) \<and>
   byIdAscending localeCompareNumeric (entryWithId (JStr (str ''001''))) (entryWithId (JStr (str ''002''))) \<le> 0 \<and>
   byIdAscending localeCompareNumeric (entryWithId (JStr (str ''002''))) (entryWithId (JStr (str ''abc''))) \<le> 0 \<and>
   byIdAscending localeCompareNumeric (entryWithId (JStr (str ''001''))) (entryWithId (JStr (str ''abc''))) \<le> 0 \<and>
   byIdAscending localeCompareNumeric (entryWithId (JStr (str ''001''))) (entryWithId (JStr (str ''002''))) \<noteq> 0"
proof -
  have ab: "byIdAscending localeCompareNumeric (entryWithId (JStr (str ''001''))) (entryWithId (JStr (str ''002''))) \<le> 0"
    by (simp add: byIdAscending_def entryWithId_def num_001 num_002)
  have bc: "byIdAscending localeCompareNumeric (entryWithId (JStr (str ''002''))) (entryWithId (JStr (str ''abc''))) \<le> 0"
    by (simp add: byIdAscending_def entryWithId_def num_002 num_abc)
  have ne: "idToNumber (c_id (entryWithId (JStr (str ''001'')))) \<noteq> idToNumber (c_id (entryWithId (JStr (str ''002''))))"
    by (simp add: entryWithId_def num_001 num_002)
  have fin: "isFinite (idToNumber (c_id (entryWithId (JStr (str ''001'')))))"
    by (simp add: entryWithId_def num_001)
  from byIdAscending_total_preorder [of localeCompareNumeric "entryWithId (JStr (str ''001''))"
      "entryWithId (JStr (str ''002''))" "entryWithId (JStr (str ''abc''))"]
    consistent_localeCompareNumeric ab bc ne fin
  show ?thesis by blast
qed


section \<open>Operations on the page\<close>

subsection \<open>What the element helpers change\<close>

lemma setText_fields [simp]:
  "loaded (setText el t st) = loaded st"
  "comics (setText el t st) = comics st"
  "currentIndex (setText el t st) = currentIndex st"
  "present (setText el t st) = present st"
  "textContent (setText el t st) el' = (if present st el \<and> el' = el then t else textContent st el')"
  "attrs (setText el t st) = attrs st"
  "onclick (setText el t st) = onclick st"
  "gridHtml (setText el t st) = gridHtml st"
  "emptyNoteDisplay (setText el t st) = emptyNoteDisplay st"
  "currentTab (setText el t st) = currentTab st"
  "bodyOverflow (setText el t st) = bodyOverflow st"
  "rootOverflow (setText el t st) = rootOverflow st"
  "fragment (setText el t st) = fragment st"
  "storedFlag (setText el t st) = storedFlag st"
  "storageFails (setText el t st) = storageFails st"
  "wired (setText el t st) = wired st"
  "preloads (setText el t st) = preloads st"
  "consoleErrors (setText el t st) = consoleErrors st"
  "touchStartX (setText el t st) = touchStartX st"
  "touchStartY (setText el t st) = touchStartY st"
  "touchActive (setText el t st) = touchActive st"
  by (simp_all add: setText_def)

lemma setAttr_fields [simp]:
  "loaded (setAttr el a v st) = loaded st"
  "comics (setAttr el a v st) = comics st"
  "currentIndex (setAttr el a v st) = currentIndex st"
  "present (setAttr el a v st) = present st"
  "textContent (setAttr el a v st) = textContent st"
  "attrs (setAttr el a v st) el' a' =
     (if present st el \<and> el' = el \<and> a' = a then Some v else attrs st el' a')"
  "onclick (setAttr el a v st) = onclick st"
  "gridHtml (setAttr el a v st) = gridHtml st"
  "emptyNoteDisplay (setAttr el a v st) = emptyNoteDisplay st"
  "currentTab (setAttr el a v st) = currentTab st"
  "bodyOverflow (setAttr el a v st) = bodyOverflow st"
  "rootOverflow (setAttr el a v st) = rootOverflow st"
  "fragment (setAttr el a v st) = fragment st"
  "storedFlag (setAttr el a v st) = storedFlag st"
  "storageFails (setAttr el a v st) = storageFails st"
  "wired (setAttr el a v st) = wired st"
  "preloads (setAttr el a v st) = preloads st"
  "consoleErrors (setAttr el a v st) = consoleErrors st"
  "touchStartX (setAttr el a v st) = touchStartX st"
  "touchStartY (setAttr el a v st) = touchStartY st"
  "touchActive (setAttr el a v st) = touchActive st"
  by (simp_all add: setAttr_def setAttribute_def)

lemma setBtn_fields [simp]:
  "loaded (setBtn el en h st) = loaded st"
  "comics (setBtn el en h st) = comics st"
  "currentIndex (setBtn el en h st) = currentIndex st"
  "present (setBtn el en h st) = present st"
  "textContent (setBtn el en h st) = textContent st"
  "attrs (setBtn el en h st) el' a' =
     (if present st el \<and> el' = el \<and> a' = AriaDisabled
      then (if en then None else Some (str ''true'')) else attrs st el' a')"
  "onclick (setBtn el en h st) el' =
     (if present st el \<and> el' = el then (if en then Some h else None) else onclick st el')"
  "gridHtml (setBtn el en h st) = gridHtml st"
  "emptyNoteDisplay (setBtn el en h st) = emptyNoteDisplay st"
  "currentTab (setBtn el en h st) = currentTab st"
  "bodyOverflow (setBtn el en h st) = bodyOverflow st"
  "rootOverflow (setBtn el en h st) = rootOverflow st"
  "fragment (setBtn el en h st) = fragment st"
  "storedFlag (setBtn el en h st) = storedFlag st"
  "storageFails (setBtn el en h st) = storageFails st"
  "wired (setBtn el en h st) = wired st"
  "preloads (setBtn el en h st) = preloads st"
  "consoleErrors (setBtn el en h st) = consoleErrors st"
  "touchStartX (setBtn el en h st) = touchStartX st"
  "touchStartY (setBtn el en h st) = touchStartY st"
  "touchActive (setBtn el en h st) = touchActive st"
  by (simp_all add: setBtn_def setAttribute_def removeAttribute_def)

lemma nthOpt_Some_iff: "nthOpt xs i = Some x \<longleftrightarrow> 0 \<le> i \<and> i < int (length xs) \<and> xs ! nat i = x"
  by (auto simp: nthOpt_def)

lemma nthOpt_None_iff: "nthOpt xs i = None \<longleftrightarrow> i < 0 \<or> int (length xs) \<le> i"
  by (auto simp: nthOpt_def)

lemma renderReader_Thrown: "renderReader st = Thrown e s \<Longrightarrow> s = st \<and> e = TypeError"
  by (auto simp: renderReader_def Let_def split: option.splits)

lemma renderReader_in_range:
  "0 \<le> currentIndex st \<Longrightarrow> currentIndex st < int (length (comics st)) \<Longrightarrow>
   \<exists>s. renderReader st = Done s"
  by (simp add: renderReader_def Let_def nthOpt_def)

lemma renderReader_Done_iff:
  "(\<exists>s. renderReader st = Done s) \<longleftrightarrow> 0 \<le> currentIndex st \<and> currentIndex st < int (length (comics st))"
  by (auto simp: renderReader_def Let_def nthOpt_def)

lemma renderReader_frame:
  assumes "renderReader st = Done s"
  shows "comics s = comics st" "currentIndex s = currentIndex st" "present s = present st"
    "fragment s = fragment st" "wired s = wired st" "storedFlag s = storedFlag st"
    "storageFails s = storageFails st" "attrs s Reader = attrs st Reader"
    "attrs s Disclaimer = attrs st Disclaimer" "gridHtml s = gridHtml st"
    "onclick s LatestOpen = onclick st LatestOpen" "loaded s = loaded st"
    "touchActive s = touchActive st" "touchStartX s = touchStartX st"
    "touchStartY s = touchStartY st" "bodyOverflow s = bodyOverflow st"
    "rootOverflow s = rootOverflow st" "currentTab s = currentTab st"
    "consoleErrors s = consoleErrors st" "emptyNoteDisplay s = emptyNoteDisplay st"
  using assms
  by (auto simp: renderReader_def Let_def fun_eq_iff split: option.splits)

lemma renderReader_buttons:
  assumes "renderReader st = Done s"
  shows "onclick s BtnPrev =
           (if present st BtnPrev
            then (if 1 \<le> currentIndex st then Some (GoPrev (nthOpt (comics st) (currentIndex st - 1))) else None)
            else onclick st BtnPrev)"
    and "onclick s BtnNext =
           (if present st BtnNext
            then (if currentIndex st + 1 < int (length (comics st))
                  then Some (GoNext (nthOpt (comics st) (currentIndex st + 1))) else None)
            else onclick st BtnNext)"
    and "onclick s BtnLatest =
           (if present st BtnLatest
            then Some (GoLatest (nthOpt (comics st) (int (length (comics st)) - 1)))
            else onclick st BtnLatest)"
    and "attrs s BtnPrev AriaDisabled =
           (if present st BtnPrev then (if 1 \<le> currentIndex st then None else Some (str ''true''))
            else attrs st BtnPrev AriaDisabled)"
    and "attrs s BtnNext AriaDisabled =
           (if present st BtnNext
            then (if currentIndex st + 1 < int (length (comics st)) then None else Some (str ''true''))
            else attrs st BtnNext AriaDisabled)"
    and "attrs s BtnLatest AriaDisabled =
           (if present st BtnLatest then None else attrs st BtnLatest AriaDisabled)"
  using assms
  by (auto simp: renderReader_def Let_def nthOpt_def split: option.splits if_splits)

lemma findIndex_None_iff: "findIndex p xs = None \<longleftrightarrow> (\<forall>x \<in> set xs. \<not> p x)"
  by (induction xs) auto

lemma findIndex_Some_iff:
  "findIndex p xs = Some i \<longleftrightarrow> i < length xs \<and> p (xs ! i) \<and> (\<forall>j < i. \<not> p (xs ! j))"
proof (induction xs arbitrary: i)
  case Nil
  then show ?case by simp
next
  case (Cons x xs)
  show ?case
  proof (cases "p x")
    case True
    then show ?thesis by (cases i) auto
  next
    case False
    show ?thesis
    proof (cases i)
      case 0
      with False show ?thesis by auto
    next
      case (Suc k)
      have "(\<forall>j<Suc k. \<not> p ((x # xs) ! j)) \<longleftrightarrow> (\<forall>j<k. \<not> p (xs ! j))"
        using False by (auto simp: less_Suc_eq_0_disj)
      with Suc False Cons.IH [of k] show ?thesis by auto
    qed
  qed
qed

lemma setHash_Thrown: "setHash v st = Thrown e s \<Longrightarrow> s = st"
  by (auto simp: setHash_def split: sum.splits)

lemma setHash_Done:
  "setHash v st = Done s \<longleftrightarrow>
     (\<exists>enc. encodeURIComponent (toString v) = Inr enc \<and>
        s = st\<lparr>fragment := hashSetter (str ''c='' @ enc)\<rparr>)"
  by (auto simp: setHash_def split: sum.splits)

lemma setHash_final:
  "final (setHash v st) = st \<or> (\<exists>f. final (setHash v st) = st\<lparr>fragment := f\<rparr>)"
  by (auto simp: setHash_def split: sum.splits)

lemma setHashOf_final:
  "final (setHashOf x st) = st \<or> (\<exists>f. final (setHashOf x st) = st\<lparr>fragment := f\<rparr>)"
  using setHash_final by (auto simp: setHashOf_def split: option.splits)

lemma openReader_final:
  "final (openReader st) = st \<or>
   final (openReader st) = st\<lparr>attrs := (attrs st)(Reader := (attrs st Reader)(Open \<mapsto> [])),
      bodyOverflow := str ''hidden''\<rparr>"
  by (auto simp: openReader_def setAttribute_def)

lemma closeReader_final:
  "final (closeReader st) = st \<or>
   final (closeReader st) = st\<lparr>attrs := (attrs st)(Reader := (attrs st Reader)(Open := None)),
      bodyOverflow := []\<rparr>"
  by (auto simp: closeReader_def removeAttribute_def)

lemma final_andThen:
  "final (andThen m f) = (case m of Done s \<Rightarrow> final (f s) | Thrown e s \<Rightarrow> s)"
  by (cases m) (simp_all add: andThen_def)

lemma cursorInv_cong:
  "comics s = comics st \<Longrightarrow> currentIndex s = currentIndex st \<Longrightarrow> present s = present st \<Longrightarrow>
   onclick s = onclick st \<Longrightarrow> cursorInv s = cursorInv st"
  by (simp add: cursorInv_def handlerFits_def split: handler.splits)

lemma cursorInv_fragment: "cursorInv (st\<lparr>fragment := f\<rparr>) = cursorInv st"
  by (rule cursorInv_cong) simp_all

lemma cursorInv_attrs: "cursorInv (st\<lparr>attrs := a, bodyOverflow := b\<rparr>) = cursorInv st"
  by (rule cursorInv_cong) simp_all

lemma cursorInv_setHash: "cursorInv st \<Longrightarrow> cursorInv (final (setHash v st))"
  using setHash_final [of v st] cursorInv_fragment [where st = st] by metis

lemma cursorInv_setHashOf: "cursorInv st \<Longrightarrow> cursorInv (final (setHashOf x st))"
  using setHashOf_final [of x st] cursorInv_fragment [where st = st] by metis

lemma cursorInv_openReader: "cursorInv st \<Longrightarrow> cursorInv (final (openReader st))"
  using openReader_final [of st] cursorInv_attrs [where st = st] by metis

lemma cursorInv_closeReader: "cursorInv st \<Longrightarrow> cursorInv (final (closeReader st))"
  using closeReader_final [of st] cursorInv_attrs [where st = st] by metis

text \<open>What \<open>latestOpen\<close> may hold.\<close>

lemma renderReader_cursorInv:
  assumes r: "renderReader st = Done s"
    and l: "\<forall>h. present st LatestOpen \<and> onclick st LatestOpen = Some h \<longrightarrow> (\<exists>v. h = OpenEntry v)"
  shows "cursorInv s"
proof -
  from r have range: "0 \<le> currentIndex st" "currentIndex st < int (length (comics st))"
    using renderReader_Done_iff [of st] by auto
  note f = renderReader_frame [OF r]
  note b = renderReader_buttons [OF r]
  show ?thesis
    unfolding cursorInv_def
    using range l
    by (auto simp: f b handlerFits_def split: if_splits handler.splits)
qed

lemma cursorInv_latestOpen:
  "cursorInv st \<Longrightarrow> present st LatestOpen \<and> onclick st LatestOpen = Some h \<Longrightarrow> \<exists>v. h = OpenEntry v"
  by (cases h) (auto simp: cursorInv_def handlerFits_def)

lemma cursorInv_move:
  assumes inv: "cursorInv st" and i: "0 \<le> i" "i < int (length (comics st))"
  shows "\<exists>s. renderReader (st\<lparr>currentIndex := i\<rparr>) = Done s \<and> cursorInv s"
proof -
  from i obtain s where s: "renderReader (st\<lparr>currentIndex := i\<rparr>) = Done s"
    using renderReader_in_range [of "st\<lparr>currentIndex := i\<rparr>"] by auto
  have "cursorInv s"
    by (rule renderReader_cursorInv [OF s]) (use cursorInv_latestOpen [OF inv] in auto)
  with s show ?thesis by blast
qed

lemma cursorInv_openComicById:
  assumes "cursorInv st"
  shows "cursorInv (final (openComicById v st))"
proof (cases "findIndex (\<lambda>c. toString (c_id c) = toString v) (comics st)")
  case None
  with assms show ?thesis by (simp add: openComicById_def)
next
  case (Some idx)
  then have "idx < length (comics st)" by (simp add: findIndex_Some_iff)
  then obtain s where s: "renderReader (st\<lparr>currentIndex := int idx\<rparr>) = Done s" "cursorInv s"
    using cursorInv_move [OF assms, of "int idx"] by auto
  have "cursorInv (final (andThen (setHash v s) openReader))"
    using cursorInv_setHash [OF s(2), of v] cursorInv_openReader
    by (cases "setHash v s") (simp_all add: andThen_def)
  with Some s(1) show ?thesis
    by (simp add: openComicById_def andThen_def)
qed

lemma cursorInv_runHandler:
  assumes inv: "cursorInv st" and fits: "handlerFits st el h"
  shows "cursorInv (final (runHandler h st))"
proof (cases h)
  case (GoPrev p)
  with fits inv have "0 \<le> currentIndex st - 1" "currentIndex st - 1 < int (length (comics st))"
    by (auto simp: handlerFits_def cursorInv_def split: handler.splits)
  then obtain s where "renderReader (st\<lparr>currentIndex := currentIndex st - 1\<rparr>) = Done s" "cursorInv s"
    using cursorInv_move [OF inv] by blast
  with GoPrev show ?thesis by (simp add: andThen_def cursorInv_setHashOf)
next
  case (GoNext n)
  with fits inv have "0 \<le> currentIndex st + 1" "currentIndex st + 1 < int (length (comics st))"
    by (auto simp: handlerFits_def cursorInv_def split: handler.splits)
  then obtain s where "renderReader (st\<lparr>currentIndex := currentIndex st + 1\<rparr>) = Done s" "cursorInv s"
    using cursorInv_move [OF inv] by blast
  with GoNext show ?thesis by (simp add: andThen_def cursorInv_setHashOf)
next
  case (GoLatest l)
  from inv have "0 \<le> int (length (comics st)) - 1" "int (length (comics st)) - 1 < int (length (comics st))"
    by (auto simp: cursorInv_def)
  then obtain s where "renderReader (st\<lparr>currentIndex := int (length (comics st)) - 1\<rparr>) = Done s" "cursorInv s"
    using cursorInv_move [OF inv] by blast
  with GoLatest show ?thesis by (simp add: andThen_def cursorInv_setHashOf)
next
  case (OpenEntry v)
  with inv show ?thesis by (simp add: cursorInv_openComicById)
qed

lemma cursorInv_click:
  assumes "cursorInv st" "present st el" "el \<in> {BtnPrev, BtnNext, BtnLatest, LatestOpen}"
  shows "cursorInv (final (click el st))"
proof (cases "onclick st el")
  case None
  with assms show ?thesis by (simp add: click_def)
next
  case (Some h)
  with assms have "handlerFits st el h" unfolding cursorInv_def by blast
  with assms(1) Some show ?thesis by (simp add: click_def cursorInv_runHandler)
qed

lemma cursorInv_clickIfPresent:
  "cursorInv st \<Longrightarrow> el \<in> {BtnPrev, BtnNext, BtnLatest, LatestOpen} \<Longrightarrow>
   cursorInv (final (clickIfPresent el st))"
  by (simp add: clickIfPresent_def cursorInv_click)

lemma cursorInv_openAt: "cursorInv st \<Longrightarrow> cursorInv (final (openAt i st))"
  by (simp add: openAt_def cursorInv_openComicById split: option.splits)

lemma cursorInv_openDisclaimer: "cursorInv (openDisclaimer st) = cursorInv st"
  by (rule cursorInv_cong) (simp_all add: openDisclaimer_def setAttribute_def)

lemma cursorInv_closeDisclaimer: "cursorInv (closeDisclaimer st) = cursorInv st"
  by (rule cursorInv_cong) (simp_all add: closeDisclaimer_def removeAttribute_def)

lemma cursorInv_acceptDisclaimer: "cursorInv (acceptDisclaimer st) = cursorInv st"
proof -
  have "cursorInv (if storageFails st then st else st\<lparr>storedFlag := Some (str ''true'')\<rparr>) = cursorInv st"
    by (rule cursorInv_cong) simp_all
  then show ?thesis by (simp add: acceptDisclaimer_def cursorInv_closeDisclaimer)
qed

lemma cursorInv_setCurrentTab: "cursorInv (setCurrentTab t st) = cursorInv st"
  by (rule cursorInv_cong) (simp_all add: setCurrentTab_def)

lemma cursorInv_touchstart: "cursorInv (touchstart x y st) = cursorInv st"
  by (rule cursorInv_cong) (simp_all add: touchstart_def)

lemma cursorInv_listener: "cursorInv st \<Longrightarrow> cursorInv (final (listener el st))"
  by (simp add: listener_def cursorInv_acceptDisclaimer cursorInv_openDisclaimer cursorInv_openAt
      cursorInv_closeReader)

lemma cursorInv_andThen:
  assumes "cursorInv (final m)" "\<And>s. cursorInv s \<Longrightarrow> cursorInv (final (f s))"
  shows "cursorInv (final (andThen m f))"
  using assms by (cases m) (simp_all add: andThen_def)

lemma cursorInv_arrow:
  "cursorInv s \<Longrightarrow> el \<in> {BtnPrev, BtnNext, BtnLatest, LatestOpen} \<Longrightarrow>
   cursorInv (final (if c then clickIfPresent el s else Done s))"
  using cursorInv_clickIfPresent [of s el] by (cases c) simp_all

lemma cursorInv_arrows:
  assumes "cursorInv s"
  shows "cursorInv (final
      (andThen (if k = ArrowLeft then clickIfPresent BtnPrev s else Done s) (\<lambda>s'.
          if k = ArrowRight then clickIfPresent BtnNext s' else Done s')))"
proof (rule cursorInv_andThen)
  show "cursorInv (final (if k = ArrowLeft then clickIfPresent BtnPrev s else Done s))"
    by (rule cursorInv_arrow [OF assms]) simp
  show "cursorInv (final (if k = ArrowRight then clickIfPresent BtnNext s' else Done s'))"
    if "cursorInv s'" for s'
    by (rule cursorInv_arrow [OF that]) simp
qed

lemma cursorInv_keydown:
  assumes "cursorInv st"
  shows "cursorInv (final (keydown k st))"
proof (cases "k = Escape \<and> present st Disclaimer \<and> hasAttribute st Disclaimer Open")
  case True
  with assms show ?thesis by (simp add: keydown_def)
next
  case False
  have "cursorInv (final (andThen (if k = Escape then closeReader st else Done st) (\<lambda>s.
        if \<not> present s Reader \<or> \<not> hasAttribute s Reader Open then Done s
        else andThen (if k = ArrowLeft then clickIfPresent BtnPrev s else Done s) (\<lambda>s'.
          if k = ArrowRight then clickIfPresent BtnNext s' else Done s'))))"
  proof (rule cursorInv_andThen)
    show "cursorInv (final (if k = Escape then closeReader st else Done st))"
      using assms by (simp add: cursorInv_closeReader)
    show "cursorInv (final
        (if \<not> present s Reader \<or> \<not> hasAttribute s Reader Open then Done s
         else andThen (if k = ArrowLeft then clickIfPresent BtnPrev s else Done s) (\<lambda>s'.
           if k = ArrowRight then clickIfPresent BtnNext s' else Done s')))"
      if "cursorInv s" for s
      using that cursorInv_arrows [OF that, of k]
      by (cases "\<not> present s Reader \<or> \<not> hasAttribute s Reader Open") simp_all
  qed
  with False show ?thesis by (simp only: keydown_def if_False)
qed

lemma cursorInv_swipe:
  assumes "cursorInv s"
  shows "cursorInv (final
      (andThen (if dx < 0 then clickIfPresent BtnNext s else Done s) (\<lambda>s'.
          if 0 < dx then clickIfPresent BtnPrev s' else Done s')))"
proof (rule cursorInv_andThen)
  show "cursorInv (final (if dx < 0 then clickIfPresent BtnNext s else Done s))"
    by (rule cursorInv_arrow [OF assms]) simp
  show "cursorInv (final (if 0 < dx then clickIfPresent BtnPrev s' else Done s'))"
    if "cursorInv s'" for s'
    by (rule cursorInv_arrow [OF that]) simp
qed

lemma cursorInv_touchend:
  assumes "cursorInv st"
  shows "cursorInv (final (touchend x y st))"
proof (cases "touchActive st")
  case False
  with assms show ?thesis by (simp add: touchend_def)
next
  case True
  have a: "cursorInv (st\<lparr>touchActive := False\<rparr>)"
    using assms cursorInv_cong [of "st\<lparr>touchActive := False\<rparr>" st] by simp
  show ?thesis
  proof (cases "\<bar>x - touchStartX st\<bar> < 60 \<or> \<bar>x - touchStartX st\<bar> < \<bar>y - touchStartY st\<bar>")
    case True
    with \<open>touchActive st\<close> a show ?thesis by (simp add: touchend_def Let_def)
  next
    case False
    with \<open>touchActive st\<close> cursorInv_swipe [OF a, of "x - touchStartX st"] show ?thesis
      by (simp add: touchend_def Let_def)
  qed
qed

lemma cursorInv_handle:
  assumes "cursorInv st"
  shows "cursorInv (final (handle ev st))"
proof (cases ev)
  case (ClickOn el)
  show ?thesis
  proof (cases "present st el")
    case False
    with assms ClickOn show ?thesis by (simp add: handle_def)
  next
    case True
    show ?thesis
    proof (cases "el \<in> {BtnPrev, BtnNext, BtnLatest, LatestOpen}")
      case True
      with assms \<open>present st el\<close> have "cursorInv (final (click el st))"
        by (rule cursorInv_click)
      with True \<open>present st el\<close> ClickOn show ?thesis by (simp add: handle_def)
    next
      case False
      with assms \<open>present st el\<close> ClickOn cursorInv_listener [OF assms, of el] show ?thesis
        by (simp add: handle_def)
    qed
  qed
next
  case (ClickTile v)
  with assms show ?thesis by (simp add: handle_def cursorInv_openComicById)
next
  case (ClickTab t)
  with assms show ?thesis by (simp add: handle_def cursorInv_setCurrentTab)
next
  case (KeyDown k)
  with assms show ?thesis by (simp add: handle_def cursorInv_keydown)
next
  case (TouchStart x y)
  with assms show ?thesis by (simp add: handle_def cursorInv_touchstart)
next
  case (TouchEnd x y)
  with assms show ?thesis by (simp add: handle_def cursorInv_touchend)
qed

lemma cursorInv_run: "cursorInv st \<Longrightarrow> cursorInv (run evs st)"
  by (induction evs arbitrary: st) (simp_all add: cursorInv_handle)

lemma cursorInv_openFromHash: "cursorInv st \<Longrightarrow> cursorInv (final (openFromHash st))"
  by (simp add: openFromHash_def cursorInv_openComicById cursorInv_setCurrentTab split: option.splits)

subsection \<open>What the handlers leave as it is\<close>

lemma sameStore_refl [simp]: "sameStore st st"
  by (simp add: sameStore_def)

lemma sameStore_trans: "sameStore s' s \<Longrightarrow> sameStore s st \<Longrightarrow> sameStore s' st"
  by (simp add: sameStore_def)

lemma sameStore_andThen:
  assumes "sameStore (final m) st" "\<And>s. sameStore (final (f s)) s"
  shows "sameStore (final (andThen m f)) st"
proof (cases m)
  case (Done s)
  with assms(1) assms(2) [of s] show ?thesis
    by (simp add: andThen_def) (rule sameStore_trans)
next
  case (Thrown e s)
  with assms(1) show ?thesis by (simp add: andThen_def)
qed

lemma sameStore_renderReader: "sameStore (final (renderReader st)) st"
proof (cases "renderReader st")
  case (Done s)
  then show ?thesis by (simp add: sameStore_def renderReader_frame)
next
  case (Thrown e s)
  then show ?thesis using renderReader_Thrown by fastforce
qed

lemma sameStore_setHash: "sameStore (final (setHash v st)) st"
  using setHash_final [of v st] by (auto simp: sameStore_def)

lemma sameStore_setHashOf: "sameStore (final (setHashOf x st)) st"
  using setHashOf_final [of x st] by (auto simp: sameStore_def)

lemma sameStore_openReader: "sameStore (final (openReader st)) st"
  using openReader_final [of st] by (auto simp: sameStore_def)

lemma sameStore_closeReader: "sameStore (final (closeReader st)) st"
  using closeReader_final [of st] by (auto simp: sameStore_def)

lemma sameStore_cursor: "sameStore (final (renderReader (st\<lparr>currentIndex := i\<rparr>))) st"
  using sameStore_renderReader [of "st\<lparr>currentIndex := i\<rparr>"] by (simp add: sameStore_def)

lemma sameStore_openComicById: "sameStore (final (openComicById v st)) st"
proof (cases "findIndex (\<lambda>c. toString (c_id c) = toString v) (comics st)")
  case None
  then show ?thesis by (simp add: openComicById_def)
next
  case (Some idx)
  have "sameStore (final (andThen (andThen (renderReader (st\<lparr>currentIndex := int idx\<rparr>)) (setHash v)) openReader)) st"
    by (intro sameStore_andThen sameStore_cursor sameStore_setHash sameStore_openReader)
  with Some show ?thesis by (simp add: openComicById_def)
qed

lemma sameStore_runHandler: "sameStore (final (runHandler h st)) st"
  by (cases h)
    (auto intro!: sameStore_andThen sameStore_cursor sameStore_setHashOf sameStore_openComicById)

lemma sameStore_click: "sameStore (final (click el st)) st"
  by (simp add: click_def sameStore_runHandler split: option.splits)

lemma sameStore_clickIfPresent: "sameStore (final (clickIfPresent el st)) st"
  by (simp add: clickIfPresent_def sameStore_click)

lemma sameStore_openAt: "sameStore (final (openAt i st)) st"
  by (simp add: openAt_def sameStore_openComicById split: option.splits)

lemma sameStore_openDisclaimer: "sameStore (openDisclaimer st) st"
  by (simp add: sameStore_def openDisclaimer_def setAttribute_def)

lemma sameStore_setCurrentTab: "sameStore (setCurrentTab t st) st"
  by (simp add: sameStore_def setCurrentTab_def)

lemma sameStore_touchstart: "sameStore (touchstart x y st) st"
  by (simp add: sameStore_def touchstart_def)

lemma sameStore_listener: "el \<noteq> DiscAccept \<Longrightarrow> sameStore (final (listener el st)) st"
  by (simp add: listener_def sameStore_openDisclaimer sameStore_openAt sameStore_closeReader)

lemma sameStore_choice:
  "sameStore (final (if c then clickIfPresent el s else Done s)) s"
  by (simp add: sameStore_clickIfPresent)

lemma sameStore_keydown: "sameStore (final (keydown k st)) st"
proof (cases "k = Escape \<and> present st Disclaimer \<and> hasAttribute st Disclaimer Open")
  case True
  then show ?thesis by (simp add: keydown_def)
next
  case False
  have "sameStore (final (andThen (if k = Escape then closeReader st else Done st) (\<lambda>s.
        if \<not> present s Reader \<or> \<not> hasAttribute s Reader Open then Done s
        else andThen (if k = ArrowLeft then clickIfPresent BtnPrev s else Done s) (\<lambda>s'.
          if k = ArrowRight then clickIfPresent BtnNext s' else Done s')))) st"
  proof (rule sameStore_andThen)
    show "sameStore (final (if k = Escape then closeReader st else Done st)) st"
      by (simp add: sameStore_closeReader)
    show "sameStore (final
        (if \<not> present s Reader \<or> \<not> hasAttribute s Reader Open then Done s
         else andThen (if k = ArrowLeft then clickIfPresent BtnPrev s else Done s) (\<lambda>s'.
           if k = ArrowRight then clickIfPresent BtnNext s' else Done s'))) s" for s
    proof (cases "\<not> present s Reader \<or> \<not> hasAttribute s Reader Open")
      case True
      then show ?thesis by simp
    next
      case False
      have "sameStore (final (andThen (if k = ArrowLeft then clickIfPresent BtnPrev s else Done s) (\<lambda>s'.
           if k = ArrowRight then clickIfPresent BtnNext s' else Done s'))) s"
        by (intro sameStore_andThen sameStore_choice)
      with False show ?thesis by (simp only: if_False)
    qed
  qed
  with False show ?thesis by (simp only: keydown_def if_False)
qed

lemma sameStore_touchend: "sameStore (final (touchend x y st)) st"
proof (cases "touchActive st")
  case False
  then show ?thesis by (simp add: touchend_def)
next
  case True
  let ?s = "st\<lparr>touchActive := False\<rparr>"
  have a: "sameStore ?s st" by (simp add: sameStore_def)
  show ?thesis
  proof (cases "\<bar>x - touchStartX st\<bar> < 60 \<or> \<bar>x - touchStartX st\<bar> < \<bar>y - touchStartY st\<bar>")
    case True
    with \<open>touchActive st\<close> a show ?thesis by (simp add: touchend_def Let_def)
  next
    case False
    have "sameStore (final (andThen (if x - touchStartX st < 0 then clickIfPresent BtnNext ?s else Done ?s)
        (\<lambda>s'. if 0 < x - touchStartX st then clickIfPresent BtnPrev s' else Done s'))) ?s"
      by (intro sameStore_andThen sameStore_choice)
    then have "sameStore (final (andThen (if x - touchStartX st < 0 then clickIfPresent BtnNext ?s else Done ?s)
        (\<lambda>s'. if 0 < x - touchStartX st then clickIfPresent BtnPrev s' else Done s'))) st"
      using a by (rule sameStore_trans)
    with False \<open>touchActive st\<close> show ?thesis
      by (simp add: touchend_def Let_def)
  qed
qed

lemma sameStore_handle:
  assumes "ev \<noteq> ClickOn DiscAccept"
  shows "sameStore (final (handle ev st)) st"
proof (cases ev)
  case (ClickOn el)
  with assms have "el \<noteq> DiscAccept" by simp
  with ClickOn show ?thesis
    by (simp add: handle_def sameStore_click sameStore_listener)
next
  case (ClickTile v)
  then show ?thesis by (simp add: handle_def sameStore_openComicById)
next
  case (ClickTab t)
  then show ?thesis by (simp add: handle_def sameStore_setCurrentTab)
next
  case (KeyDown k)
  then show ?thesis by (simp add: handle_def sameStore_keydown)
next
  case (TouchStart x y)
  then show ?thesis by (simp add: handle_def sameStore_touchstart)
next
  case (TouchEnd x y)
  then show ?thesis by (simp add: handle_def sameStore_touchend)
qed

lemma comics_acceptDisclaimer: "comics (acceptDisclaimer st) = comics st"
  by (simp add: acceptDisclaimer_def closeDisclaimer_def removeAttribute_def)

lemma comics_handle: "comics (final (handle ev st)) = comics st"
proof (cases "ev = ClickOn DiscAccept")
  case True
  then show ?thesis
    by (simp add: handle_def listener_def comics_acceptDisclaimer)
next
  case False
  then show ?thesis using sameStore_handle [of ev st] by (simp add: sameStore_def)
qed

lemma comics_run: "comics (run evs st) = comics st"
  by (induction evs arbitrary: st) (simp_all add: comics_handle)

subsection \<open>Initialisation\<close>

lemma renderLatest_fields [simp]:
  "loaded (renderLatest c st) = loaded st"
  "comics (renderLatest c st) = comics st"
  "currentIndex (renderLatest c st) = currentIndex st"
  "present (renderLatest c st) = present st"
  "onclick (renderLatest c st) el =
     (if present st LatestOpen \<and> el = LatestOpen then Some (OpenEntry (c_id c)) else onclick st el)"
  "gridHtml (renderLatest c st) = gridHtml st"
  "fragment (renderLatest c st) = fragment st"
  "storedFlag (renderLatest c st) = storedFlag st"
  "storageFails (renderLatest c st) = storageFails st"
  "wired (renderLatest c st) = wired st"
  "consoleErrors (renderLatest c st) = consoleErrors st"
  by (simp_all add: renderLatest_def Let_def)

lemma renderGrid_final:
  "final (renderGrid cs st) = st \<or> (\<exists>h. final (renderGrid cs st) = st\<lparr>gridHtml := h\<rparr>)"
  by (auto simp: renderGrid_def split: sum.splits)

lemma sameStore_renderGrid: "sameStore (final (renderGrid cs st)) st"
  using renderGrid_final [of cs st] by (auto simp: sameStore_def)

lemma cursorInv_renderGrid: "cursorInv st \<Longrightarrow> cursorInv (final (renderGrid cs st))"
proof -
  have "cursorInv (st\<lparr>gridHtml := h\<rparr>) = cursorInv st" for h
    by (rule cursorInv_cong) simp_all
  then show "cursorInv st \<Longrightarrow> cursorInv (final (renderGrid cs st))"
    using renderGrid_final [of cs st] by metis
qed

lemma sameStore_openFromHash: "sameStore (final (openFromHash st)) st"
proof -
  have "sameStore (final (openComicById v (setCurrentTab t st))) st" for v t
    using sameStore_openComicById [of v "setCurrentTab t st"] sameStore_setCurrentTab [of t st]
    by (rule sameStore_trans)
  then show ?thesis by (simp add: openFromHash_def split: option.splits)
qed

lemma initWith_empty:
  assumes "sortedComics lc m = []"
  shows "\<exists>s. initWith lc m st = Done s \<and> comics s = [] \<and> gridHtml s = gridHtml st \<and>
    onclick s = onclick st \<and> currentIndex s = currentIndex st \<and> wired s = wired st \<and>
    textContent s PageError = textContent st PageError \<and> consoleErrors s = consoleErrors st"
  using assms by (simp add: initWith_def Let_def sortedComics_def)

lemma initWith_nonempty:
  assumes "sortedComics lc m \<noteq> []"
  shows "initWith lc m st =
    andThen (renderGrid (sortedComics lc m)
        (renderLatest (last (sortedComics lc m))
          (setText SiteTagline (taglineOf m)
            (setText SiteTitleFooter (siteTitleOf m)
              (setText SiteTitle (siteTitleOf m) (st\<lparr>comics := sortedComics lc m\<rparr>))))))
      (\<lambda>s. openFromHash ((setCurrentTab (str ''archive'') s)\<lparr>wired := True\<rparr>))"
  using assms by (simp add: initWith_def Let_def sortedComics_def)

lemma comics_initWith: "comics (final (initWith lc m st)) = sortedComics lc m"
proof (cases "sortedComics lc m = []")
  case True
  from initWith_empty [OF True, of st] show ?thesis using True by auto
next
  case False
  let ?a = "renderLatest (last (sortedComics lc m))
          (setText SiteTagline (taglineOf m)
            (setText SiteTitleFooter (siteTitleOf m)
              (setText SiteTitle (siteTitleOf m) (st\<lparr>comics := sortedComics lc m\<rparr>))))"
  have a: "comics ?a = sortedComics lc m" by simp
  have g: "comics (final (renderGrid (sortedComics lc m) ?a)) = comics ?a"
    using sameStore_renderGrid [of "sortedComics lc m" ?a] by (simp only: sameStore_def)
  have h: "comics (final (openFromHash ((setCurrentTab (str ''archive'') s)\<lparr>wired := True\<rparr>))) = comics s" for s
    using sameStore_openFromHash [of "(setCurrentTab (str ''archive'') s)\<lparr>wired := True\<rparr>"]
    by (simp add: sameStore_def setCurrentTab_def)
  have "comics (final (andThen (renderGrid (sortedComics lc m) ?a)
      (\<lambda>s. openFromHash ((setCurrentTab (str ''archive'') s)\<lparr>wired := True\<rparr>)))) = comics ?a"
    using g h by (cases "renderGrid (sortedComics lc m) ?a") (simp_all add: andThen_def)
  with a show ?thesis by (simp only: initWith_nonempty [OF False])
qed

lemma cursorInv_initWith:
  assumes "currentIndex st = 0" "\<forall>el. onclick st el = None" "sortedComics lc m \<noteq> []"
  shows "cursorInv (final (initWith lc m st))"
proof -
  let ?a = "renderLatest (last (sortedComics lc m))
          (setText SiteTagline (taglineOf m)
            (setText SiteTitleFooter (siteTitleOf m)
              (setText SiteTitle (siteTitleOf m) (st\<lparr>comics := sortedComics lc m\<rparr>))))"
  have a: "cursorInv ?a"
    using assms by (auto simp: cursorInv_def handlerFits_def)
  have "cursorInv (final (andThen (renderGrid (sortedComics lc m) ?a)
      (\<lambda>s. openFromHash ((setCurrentTab (str ''archive'') s)\<lparr>wired := True\<rparr>))))"
  proof (rule cursorInv_andThen)
    show "cursorInv (final (renderGrid (sortedComics lc m) ?a))"
      using a by (rule cursorInv_renderGrid)
    show "cursorInv (final (openFromHash ((setCurrentTab (str ''archive'') s)\<lparr>wired := True\<rparr>)))"
      if "cursorInv s" for s
    proof (rule cursorInv_openFromHash)
      have "cursorInv ((setCurrentTab (str ''archive'') s)\<lparr>wired := True\<rparr>) = cursorInv s"
        by (rule cursorInv_cong) (simp_all add: setCurrentTab_def)
      with that show "cursorInv ((setCurrentTab (str ''archive'') s)\<lparr>wired := True\<rparr>)" by simp
    qed
  qed
  then show ?thesis by (simp only: initWith_nonempty [OF assms(3)])
qed

lemma init_alt:
  "init lc f st = (case initBody lc f (gated st) of Done s \<Rightarrow> s | Thrown e s \<Rightarrow> caught e s)"
  by (simp add: init_def gated_def caught_def split: outcome.splits)

lemma gated_fields [simp]:
  "comics (gated st) = comics st" "currentIndex (gated st) = currentIndex st"
  "onclick (gated st) = onclick st" "gridHtml (gated st) = gridHtml st"
  "textContent (gated st) = textContent st" "present (gated st) = present st"
  "wired (gated st) = wired st" "consoleErrors (gated st) = consoleErrors st"
  "fragment (gated st) = fragment st" "loaded (gated st) = loaded st"
  "el \<noteq> Disclaimer \<Longrightarrow> attrs (gated st) el = attrs st el"
  "storedFlag (gated st) = storedFlag st" "preloads (gated st) = preloads st"
  by (simp_all add: gated_def openDisclaimer_def setAttribute_def)

lemma caught_fields [simp]:
  "comics (caught e s) = comics s" "currentIndex (caught e s) = currentIndex s"
  "onclick (caught e s) = onclick s" "gridHtml (caught e s) = gridHtml s"
  "present (caught e s) = present s" "wired (caught e s) = wired s"
  "attrs (caught e s) = attrs s" "fragment (caught e s) = fragment s"
  "loaded (caught e s) = loaded s" "storedFlag (caught e s) = storedFlag s"
  "preloads (caught e s) = preloads s"
  "consoleErrors (caught e s) = consoleErrors s @ [e]"
  "textContent (caught e s) el =
     (if present s PageError \<and> el = PageError then staticMessage else textContent s el)"
  by (simp_all add: caught_def)

lemma cursorInv_caught: "cursorInv (caught e s) = cursorInv s"
  by (rule cursorInv_cong) simp_all

lemma init_failed:
  "loadData f = Inl e \<Longrightarrow> init lc f st = caught e (gated st)"
  by (simp add: init_alt initBody_def)

lemma init_null:
  "loadData f = Inr JsonNull \<Longrightarrow>
   init lc f st = caught TypeError ((gated st)\<lparr>loaded := Some JsonNull\<rparr>)"
  by (simp add: init_alt initBody_def)

lemma init_manifest:
  "loadData f = Inr (JsonManifest m) \<Longrightarrow>
   init lc f st =
     (case initWith lc m ((gated st)\<lparr>loaded := Some (JsonManifest m)\<rparr>) of
        Done s \<Rightarrow> s | Thrown e s \<Rightarrow> caught e s)"
  by (simp add: init_alt initBody_def)

lemma init_other:
  "loadData f = Inr JsonOther \<Longrightarrow>
   init lc f st =
     (case initWith lc \<lparr>m_title = None, m_author = None, m_comics = None\<rparr>
             ((gated st)\<lparr>loaded := Some JsonOther\<rparr>) of
        Done s \<Rightarrow> s | Thrown e s \<Rightarrow> caught e s)"
  by (simp add: init_alt initBody_def)

lemma comics_init_manifest:
  assumes "loadData f = Inr (JsonManifest m)"
  shows "comics (init lc f st) = sortedComics lc m"
proof -
  let ?o = "initWith lc m ((gated st)\<lparr>loaded := Some (JsonManifest m)\<rparr>)"
  have "comics (final ?o) = sortedComics lc m" by (rule comics_initWith)
  then show ?thesis
    by (cases ?o) (simp_all add: init_manifest [OF assms])
qed

lemma comics_init_other:
  assumes "loadData f = Inr JsonOther"
  shows "comics (init lc f st) = []"
proof -
  let ?m = "\<lparr>m_title = None, m_author = None, m_comics = None\<rparr>"
  let ?o = "initWith lc ?m ((gated st)\<lparr>loaded := Some JsonOther\<rparr>)"
  have "sortedComics lc ?m = []" by (simp add: sortedComics_def sortBy_def)
  with comics_initWith [of lc ?m "(gated st)\<lparr>loaded := Some JsonOther\<rparr>"]
  have "comics (final ?o) = []" by simp
  then show ?thesis
    by (cases ?o) (simp_all add: init_other [OF assms])
qed

lemma cursorInv_init:
  assumes "comics st = []" "currentIndex st = 0" "\<forall>el. onclick st el = None"
    "comics (init lc f st) \<noteq> []"
  shows "cursorInv (init lc f st)"
proof (cases "loadData f")
  case (Inl e)
  with assms show ?thesis by (simp add: init_failed)
next
  case (Inr d)
  show ?thesis
  proof (cases d)
    case JsonNull
    with Inr assms show ?thesis by (simp add: init_null)
  next
    case JsonOther
    with Inr assms comics_init_other [of f lc st] show ?thesis by simp
  next
    case (JsonManifest m)
    with Inr have l: "loadData f = Inr (JsonManifest m)" by simp
    let ?o = "initWith lc m ((gated st)\<lparr>loaded := Some (JsonManifest m)\<rparr>)"
    from assms(4) have "sortedComics lc m \<noteq> []"
      by (simp add: comics_init_manifest [OF l])
    with assms(2,3) have "cursorInv (final ?o)"
      by (intro cursorInv_initWith) simp_all
    then show ?thesis
      by (cases ?o) (simp_all add: init_manifest [OF l] cursorInv_caught)
  qed
qed

section \<open>The reader\<close>

text \<open>
  C5. With the cursor on an entry of the collection and the three buttons in the
  document, \<open>renderReader\<close> returns, and afterwards \<open>prev\<close> is disabled (marked
  \<open>aria-disabled\<close>, without closure) exactly when the cursor is 0, \<open>next\<close> exactly when
  the cursor is the last index, and \<open>latest\<close> is enabled. With an empty collection no id
  opens the reader, and \<open>renderReader\<close> raises before it reaches a button.
\<close>

theorem reader_buttons:
  "(0 \<le> currentIndex st \<and> currentIndex st < int (length (comics st)) \<and>
    present st BtnPrev \<and> present st BtnNext \<and> present st BtnLatest \<longrightarrow>
      (\<exists>s. renderReader st = Done s \<and>
         (hasAttribute s BtnPrev AriaDisabled \<longleftrightarrow> currentIndex st = 0) \<and>
         (onclick s BtnPrev = None \<longleftrightarrow> currentIndex st = 0) \<and>
         (hasAttribute s BtnNext AriaDisabled \<longleftrightarrow> currentIndex st = int (length (comics st)) - 1) \<and>
         (onclick s BtnNext = None \<longleftrightarrow> currentIndex st = int (length (comics st)) - 1) \<and>
         \<not> hasAttribute s BtnLatest AriaDisabled \<and>
         onclick s BtnLatest \<noteq> None)) \<and>
   (comics st = [] \<longrightarrow> openComicById v st = Done st \<and> renderReader st = Thrown TypeError st)"
proof (intro conjI impI)
  assume a: "0 \<le> currentIndex st \<and> currentIndex st < int (length (comics st)) \<and>
    present st BtnPrev \<and> present st BtnNext \<and> present st BtnLatest"
  then obtain s where s: "renderReader st = Done s"
    using renderReader_in_range [of st] by blast
  note b = renderReader_buttons [OF s]
  show "\<exists>s. renderReader st = Done s \<and>
         (hasAttribute s BtnPrev AriaDisabled \<longleftrightarrow> currentIndex st = 0) \<and>
         (onclick s BtnPrev = None \<longleftrightarrow> currentIndex st = 0) \<and>
         (hasAttribute s BtnNext AriaDisabled \<longleftrightarrow> currentIndex st = int (length (comics st)) - 1) \<and>
         (onclick s BtnNext = None \<longleftrightarrow> currentIndex st = int (length (comics st)) - 1) \<and>
         \<not> hasAttribute s BtnLatest AriaDisabled \<and>
         onclick s BtnLatest \<noteq> None"
  proof (intro exI [of _ s] conjI)
    show "renderReader st = Done s" by (rule s)
    show "hasAttribute s BtnPrev AriaDisabled \<longleftrightarrow> currentIndex st = 0"
      using a by (auto simp: hasAttribute_def b(4))
    show "onclick s BtnPrev = None \<longleftrightarrow> currentIndex st = 0"
      using a by (auto simp: b(1))
    show "hasAttribute s BtnNext AriaDisabled \<longleftrightarrow> currentIndex st = int (length (comics st)) - 1"
      using a by (auto simp: hasAttribute_def b(5))
    show "onclick s BtnNext = None \<longleftrightarrow> currentIndex st = int (length (comics st)) - 1"
      using a by (auto simp: b(2))
    show "\<not> hasAttribute s BtnLatest AriaDisabled"
      using a by (simp add: hasAttribute_def b(6))
    show "onclick s BtnLatest \<noteq> None"
      using a by (simp add: b(3))
  qed
next
  assume "comics st = []"
  then show "openComicById v st = Done st" by (simp add: openComicById_def)
next
  assume "comics st = []"
  then have "nthOpt (comics st) (currentIndex st) = None"
    by (simp add: nthOpt_def)
  then show "renderReader st = Thrown TypeError st"
    by (simp add: renderReader_def)
qed

text \<open>Two entries, cursor 0: \<open>prev\<close> is disabled, \<open>next\<close> and \<open>latest\<close> are enabled.\<close>

theorem reader_buttons_witness:
  "\<exists>s. renderReader readerPage = Done s \<and>
     hasAttribute s BtnPrev AriaDisabled \<and> onclick s BtnPrev = None \<and>
     \<not> hasAttribute s BtnNext AriaDisabled \<and> onclick s BtnNext \<noteq> None \<and>
     \<not> hasAttribute s BtnLatest AriaDisabled \<and> onclick s BtnLatest \<noteq> None"
proof -
  have "0 \<le> currentIndex readerPage \<and> currentIndex readerPage < int (length (comics readerPage)) \<and>
    present readerPage BtnPrev \<and> present readerPage BtnNext \<and> present readerPage BtnLatest"
    by (simp add: readerPage_def blankPage_def)
  moreover have "currentIndex readerPage = 0" "int (length (comics readerPage)) - 1 = 1"
    by (simp_all add: readerPage_def blankPage_def)
  ultimately show ?thesis
    using reader_buttons [of readerPage] by auto
qed

text \<open>
  C4. When no entry has the requested id as its string, \<open>openComicById\<close> returns with the
  page as it was. Otherwise the cursor becomes the first index whose entry has that id
  as its string; when the reader exists and the id can be encoded, the call returns
  with the reader open and the fragment written.
\<close>

theorem openComicById_first_match:
  "((\<forall>c \<in> set (comics st). toString (c_id c) \<noteq> toString v) \<longrightarrow> openComicById v st = Done st) \<and>
   (i < length (comics st) \<and> toString (c_id (comics st ! i)) = toString v \<and>
    (\<forall>j < i. toString (c_id (comics st ! j)) \<noteq> toString v) \<longrightarrow>
      currentIndex (final (openComicById v st)) = int i \<and>
      (present st Reader \<and> encodeURIComponent (toString v) = Inr enc \<longrightarrow>
         (\<exists>s. openComicById v st = Done s \<and> currentIndex s = int i \<and>
            hasAttribute s Reader Open \<and> fragment s = hashSetter (str ''c='' @ enc))))"
proof (intro conjI impI)
  assume "\<forall>c \<in> set (comics st). toString (c_id c) \<noteq> toString v"
  then have "findIndex (\<lambda>c. toString (c_id c) = toString v) (comics st) = None"
    by (simp add: findIndex_None_iff)
  then show "openComicById v st = Done st" by (simp add: openComicById_def)
next
  assume a: "i < length (comics st) \<and> toString (c_id (comics st ! i)) = toString v \<and>
    (\<forall>j < i. toString (c_id (comics st ! j)) \<noteq> toString v)"
  then have f: "findIndex (\<lambda>c. toString (c_id c) = toString v) (comics st) = Some i"
    by (simp add: findIndex_Some_iff)
  from a obtain s1 where s1: "renderReader (st\<lparr>currentIndex := int i\<rparr>) = Done s1"
    using renderReader_in_range [of "st\<lparr>currentIndex := int i\<rparr>"] by auto
  note fr = renderReader_frame [OF s1]
  have o: "openComicById v st = andThen (setHash v s1) openReader"
    by (simp add: openComicById_def f s1 andThen_def)
  show "currentIndex (final (openComicById v st)) = int i"
  proof (cases "setHash v s1")
    case (Thrown e s)
    with setHash_Thrown [OF Thrown] o fr show ?thesis by (simp add: andThen_def)
  next
    case (Done s2)
    then obtain f2 where "s2 = s1\<lparr>fragment := f2\<rparr>" by (auto simp: setHash_Done)
    with Done o fr openReader_final [of s2] show ?thesis
      by (auto simp: andThen_def)
  qed
  show "\<exists>s. openComicById v st = Done s \<and> currentIndex s = int i \<and>
            hasAttribute s Reader Open \<and> fragment s = hashSetter (str ''c='' @ enc)"
    if b: "present st Reader \<and> encodeURIComponent (toString v) = Inr enc"
  proof -
    from b have h: "setHash v s1 = Done (s1\<lparr>fragment := hashSetter (str ''c='' @ enc)\<rparr>)"
      by (simp add: setHash_def)
    from b fr have "present (s1\<lparr>fragment := hashSetter (str ''c='' @ enc)\<rparr>) Reader" by simp
    then show ?thesis
      using fr by (simp add: o h andThen_def openReader_def setAttribute_def hasAttribute_def)
  qed
qed

lemma encode_002: "encodeURIComponent (str ''002'') = Inr (str ''002'')"
  by (simp add: str_def ch_def isUnreserved_def isAlnum_def bindE_def)

text \<open>The id \<open>zzz\<close> is not in the collection; \<open>002\<close> is at index 1.\<close>

theorem openComicById_first_match_witness:
  "openComicById (JStr (str ''zzz'')) readerPage = Done readerPage \<and>
   (\<exists>s. openComicById (JStr (str ''002'')) readerPage = Done s \<and> currentIndex s = 1 \<and>
      hasAttribute s Reader Open \<and> fragment s = hashSetter (str ''c=002''))"
proof -
  have a: "\<forall>c \<in> set (comics readerPage). toString (c_id c) \<noteq> toString (JStr (str ''zzz''))"
    by (simp add: readerPage_def blankPage_def comicA_def comicB_def str_def ch_def)
  have b: "1 < length (comics readerPage) \<and>
      toString (c_id (comics readerPage ! 1)) = toString (JStr (str ''002'')) \<and>
      (\<forall>j < 1. toString (c_id (comics readerPage ! j)) \<noteq> toString (JStr (str ''002'')))"
    by (simp add: readerPage_def blankPage_def comicA_def comicB_def str_def ch_def)
  have c: "present readerPage Reader \<and> encodeURIComponent (toString (JStr (str ''002''))) = Inr (str ''002'')"
    by (simp add: readerPage_def blankPage_def encode_002)
  have d: "str ''c='' @ str ''002'' = str ''c=002''" by (simp add: str_def)
  from openComicById_first_match [of readerPage "JStr (str ''zzz'')" 1 "str ''002''"] a
  have 1: "openComicById (JStr (str ''zzz'')) readerPage = Done readerPage" by blast
  from openComicById_first_match [of readerPage "JStr (str ''002'')" 1 "str ''002''"] b c d
  have 2: "\<exists>s. openComicById (JStr (str ''002'')) readerPage = Done s \<and> currentIndex s = 1 \<and>
      hasAttribute s Reader Open \<and> fragment s = hashSetter (str ''c=002'')"
    by simp
  from 1 2 show ?thesis by blast
qed

section \<open>The cursor stays in range\<close>

text \<open>
  C6. Every event, \<open>openComicById\<close> for any id and the opening from the fragment keep
  the cursor invariant, so after any sequence of events the cursor is an index of the
  collection; and \<open>init\<close>, run on a page with \<open>STATE\<close> as declared and no closures,
  establishes the invariant whenever it leaves a collection that is not empty.
\<close>

theorem cursor_stays_in_range:
  "(cursorInv st \<longrightarrow>
      cursorInv (final (handle ev st)) \<and> cursorInv (final (openComicById v st)) \<and>
      cursorInv (final (openFromHash st)) \<and> cursorInv (run evs st) \<and>
      0 \<le> currentIndex (run evs st) \<and>
      currentIndex (run evs st) < int (length (comics (run evs st)))) \<and>
   (comics st0 = [] \<and> currentIndex st0 = 0 \<and> (\<forall>el. onclick st0 el = None) \<and>
    comics (init lc f st0) \<noteq> [] \<longrightarrow>
      cursorInv (init lc f st0) \<and>
      0 \<le> currentIndex (run evs (init lc f st0)) \<and>
      currentIndex (run evs (init lc f st0)) < int (length (comics (run evs (init lc f st0)))))"
proof (intro conjI impI)
  assume a: "cursorInv st"
  then show "cursorInv (final (handle ev st))" by (rule cursorInv_handle)
  from a show "cursorInv (final (openComicById v st))" by (rule cursorInv_openComicById)
  from a show "cursorInv (final (openFromHash st))" by (rule cursorInv_openFromHash)
  from a show r: "cursorInv (run evs st)" by (rule cursorInv_run)
  from r show "0 \<le> currentIndex (run evs st)" by (simp add: cursorInv_def)
  from r show "currentIndex (run evs st) < int (length (comics (run evs st)))"
    by (simp add: cursorInv_def)
next
  assume b: "comics st0 = [] \<and> currentIndex st0 = 0 \<and> (\<forall>el. onclick st0 el = None) \<and>
    comics (init lc f st0) \<noteq> []"
  then show i: "cursorInv (init lc f st0)" by (intro cursorInv_init) simp_all
  then have r: "cursorInv (run evs (init lc f st0))" by (rule cursorInv_run)
  from r show "0 \<le> currentIndex (run evs (init lc f st0))" by (simp add: cursorInv_def)
  from r show "currentIndex (run evs (init lc f st0)) < int (length (comics (run evs (init lc f st0))))"
    by (simp add: cursorInv_def)
qed

lemma twoComics_sorted: "sortedComics localeCompareNumeric twoComics = [comicA, comicB]"
  by (simp add: sortedComics_def twoComics_def sortBy_def byIdAscending_def comicA_def comicB_def
      num_001 num_002)

text \<open>The manifest of two entries, loaded into the blank page, and a sequence of events.\<close>

theorem cursor_stays_in_range_witness:
  "comics (init localeCompareNumeric (Response True (Json (JsonManifest twoComics))) blankPage) =
     [comicA, comicB] \<and>
   0 \<le> currentIndex (run someEvents
          (init localeCompareNumeric (Response True (Json (JsonManifest twoComics))) blankPage)) \<and>
   currentIndex (run someEvents
          (init localeCompareNumeric (Response True (Json (JsonManifest twoComics))) blankPage)) < 2"
proof -
  let ?f = "Response True (Json (JsonManifest twoComics))"
  let ?p = "init localeCompareNumeric ?f blankPage"
  have l: "loadData ?f = Inr (JsonManifest twoComics)" by (simp add: loadData_def)
  have c: "comics ?p = [comicA, comicB]"
    by (simp add: comics_init_manifest [OF l] twoComics_sorted)
  have h: "comics blankPage = [] \<and> currentIndex blankPage = 0 \<and> (\<forall>el. onclick blankPage el = None) \<and>
      comics ?p \<noteq> []"
    by (simp add: c) (simp add: blankPage_def)
  have n: "comics (run someEvents ?p) = [comicA, comicB]"
    by (simp add: comics_run c)
  from cursor_stays_in_range [of ?p _ _ someEvents blankPage localeCompareNumeric ?f] h c n
  show ?thesis by simp
qed

section \<open>A failed load\<close>

text \<open>
  C9, as the script computes it. \<open>loadData\<close> raises exactly when the fetch is rejected,
  the response is not ok, or the body is not JSON. When it raises, \<open>init\<close> does
  nothing but open the disclaimer (if not yet acknowledged), log the error and write the
  static message: the collection, the cursor, the grid, the closures, the attributes and
  texts of every other element stay as they were.
\<close>

theorem load_failure_renders_nothing:
  "((\<exists>e. loadData f = Inl e) \<longleftrightarrow>
      f = Rejected \<or> (\<exists>b. f = Response False b) \<or> f = Response True NotJson) \<and>
   (loadData f = Inl e \<longrightarrow>
      init lc f st = caught e (gated st) \<and>
      loaded (init lc f st) = loaded st \<and>
      comics (init lc f st) = comics st \<and>
      currentIndex (init lc f st) = currentIndex st \<and>
      gridHtml (init lc f st) = gridHtml st \<and>
      onclick (init lc f st) = onclick st \<and>
      wired (init lc f st) = wired st \<and>
      fragment (init lc f st) = fragment st \<and>
      preloads (init lc f st) = preloads st \<and>
      (\<forall>el. el \<noteq> Disclaimer \<longrightarrow> attrs (init lc f st) el = attrs st el) \<and>
      (\<forall>el. el \<noteq> PageError \<longrightarrow> textContent (init lc f st) el = textContent st el) \<and>
      (present st PageError \<longrightarrow> textContent (init lc f st) PageError = staticMessage) \<and>
      consoleErrors (init lc f st) = consoleErrors st @ [e])"
proof (intro conjI impI allI)
  show "(\<exists>e. loadData f = Inl e) \<longleftrightarrow>
      f = Rejected \<or> (\<exists>b. f = Response False b) \<or> f = Response True NotJson"
    by (auto simp: loadData_def split: fetched.splits body.splits)
next
  assume "loadData f = Inl e"
  then show "init lc f st = caught e (gated st)" by (rule init_failed)
qed (simp_all add: init_failed)

text \<open>
  A body that is JSON but not a manifest (an array, say) is returned by \<open>loadData\<close>, and
  \<open>init\<close> then reports nothing.
\<close>

theorem load_accepts_any_json_counterexample:
  "loadData (Response True (Json JsonOther)) = Inr JsonOther \<and>
   loadData (Response True (Json JsonNull)) = Inr JsonNull \<and>
   consoleErrors (init localeCompareNumeric (Response True (Json JsonOther)) blankPage) = [] \<and>
   textContent (init localeCompareNumeric (Response True (Json JsonOther)) blankPage) PageError = []"
proof -
  let ?f = "Response True (Json JsonOther)"
  let ?m = "\<lparr>m_title = None, m_author = None, m_comics = None\<rparr>"
  have l: "loadData ?f = Inr JsonOther" by (simp add: loadData_def)
  have e: "sortedComics localeCompareNumeric ?m = []"
    by (simp add: sortedComics_def sortBy_def)
  from initWith_empty [OF e, of "(gated blankPage)\<lparr>loaded := Some JsonOther\<rparr>"]
  obtain s where s: "initWith localeCompareNumeric ?m ((gated blankPage)\<lparr>loaded := Some JsonOther\<rparr>) = Done s"
    "textContent s PageError = textContent ((gated blankPage)\<lparr>loaded := Some JsonOther\<rparr>) PageError"
    "consoleErrors s = consoleErrors ((gated blankPage)\<lparr>loaded := Some JsonOther\<rparr>)"
    by blast
  have i: "init localeCompareNumeric ?f blankPage = s"
    by (simp add: init_other [OF l] s(1))
  have "textContent s PageError = []" "consoleErrors s = []"
    using s(2,3) by (simp_all add: blankPage_def)
  with i l show ?thesis by (simp add: loadData_def)
qed

text \<open>A response that is not ok.\<close>

theorem load_failure_renders_nothing_witness:
  "loadData (Response False NotJson) = Inl LoadError \<and>
   textContent (init localeCompareNumeric (Response False NotJson) blankPage) PageError = staticMessage \<and>
   gridHtml (init localeCompareNumeric (Response False NotJson) blankPage) = [] \<and>
   comics (init localeCompareNumeric (Response False NotJson) blankPage) = [] \<and>
   consoleErrors (init localeCompareNumeric (Response False NotJson) blankPage) = [LoadError]"
proof -
  have l: "loadData (Response False NotJson) = Inl LoadError" by (simp add: loadData_def)
  have p: "present blankPage PageError" "gridHtml blankPage = []" "comics blankPage = []"
    "consoleErrors blankPage = []"
    by (simp_all add: blankPage_def)
  from load_failure_renders_nothing [of "Response False NotJson" LoadError localeCompareNumeric blankPage] l p
  show ?thesis by simp
qed

section \<open>The disclaimer gate\<close>

lemma accept_fields:
  "storedFlag (acceptDisclaimer st) = (if storageFails st then storedFlag st else Some (str ''true''))"
  "storageFails (acceptDisclaimer st) = storageFails st"
  "attrs (acceptDisclaimer st) Disclaimer Open = (if present st Disclaimer then None else attrs st Disclaimer Open)"
  by (simp_all add: acceptDisclaimer_def closeDisclaimer_def removeAttribute_def)

text \<open>
  C10. While the disclaimer is open, the Escape key and a click on its overlay leave the
  page exactly as it is. No event but the click on the accept button changes the stored
  acknowledgment; that click, once the listeners are registered and the storage works,
  stores it and closes the disclaimer.
\<close>

theorem disclaimer_blocks_dismissal:
  "(present st Disclaimer \<and> hasAttribute st Disclaimer Open \<longrightarrow>
      handle (KeyDown Escape) st = Done st \<and> handle (ClickOn Disclaimer) st = Done st) \<and>
   (ev \<noteq> ClickOn DiscAccept \<longrightarrow>
      storedFlag (final (handle ev st)) = storedFlag st \<and>
      storageFails (final (handle ev st)) = storageFails st) \<and>
   (wired st \<and> present st DiscAccept \<and> \<not> storageFails st \<longrightarrow>
      (\<exists>s. handle (ClickOn DiscAccept) st = Done s \<and> hasAcceptedDisclaimer s \<and>
         (present st Disclaimer \<longrightarrow> \<not> hasAttribute s Disclaimer Open)))"
proof (intro conjI impI)
  assume a: "present st Disclaimer \<and> hasAttribute st Disclaimer Open"
  then show "handle (KeyDown Escape) st = Done st"
    by (simp add: handle_def keydown_def)
  from a show "handle (ClickOn Disclaimer) st = Done st"
    by (simp add: handle_def listener_def)
next
  assume "ev \<noteq> ClickOn DiscAccept"
  then have s: "sameStore (final (handle ev st)) st" by (rule sameStore_handle)
  from s show "storedFlag (final (handle ev st)) = storedFlag st" by (simp add: sameStore_def)
  from s show "storageFails (final (handle ev st)) = storageFails st" by (simp add: sameStore_def)
next
  assume a: "wired st \<and> present st DiscAccept \<and> \<not> storageFails st"
  then have h: "handle (ClickOn DiscAccept) st = Done (acceptDisclaimer st)"
    by (simp add: handle_def listener_def)
  show "\<exists>s. handle (ClickOn DiscAccept) st = Done s \<and> hasAcceptedDisclaimer s \<and>
         (present st Disclaimer \<longrightarrow> \<not> hasAttribute s Disclaimer Open)"
    using a by (simp add: h hasAcceptedDisclaimer_def hasAttribute_def accept_fields)
qed

text \<open>The blank page with the disclaimer open and the listeners registered.\<close>

theorem disclaimer_blocks_dismissal_witness:
  "present gatePage Disclaimer \<and> hasAttribute gatePage Disclaimer Open \<and>
   \<not> hasAcceptedDisclaimer gatePage \<and>
   handle (KeyDown Escape) gatePage = Done gatePage \<and>
   handle (ClickOn Disclaimer) gatePage = Done gatePage \<and>
   storedFlag (final (handle (ClickOn BtnClose) gatePage)) = None \<and>
   (\<exists>s. handle (ClickOn DiscAccept) gatePage = Done s \<and> hasAcceptedDisclaimer s \<and>
      \<not> hasAttribute s Disclaimer Open)"
proof -
  have a: "present gatePage Disclaimer \<and> hasAttribute gatePage Disclaimer Open"
    by (simp add: gatePage_def openDisclaimer_def blankPage_def setAttribute_def hasAttribute_def)
  have b: "wired gatePage \<and> present gatePage DiscAccept \<and> \<not> storageFails gatePage"
    by (simp add: gatePage_def openDisclaimer_def blankPage_def setAttribute_def)
  have c: "storedFlag gatePage = None" "\<not> hasAcceptedDisclaimer gatePage"
    by (simp_all add: gatePage_def openDisclaimer_def blankPage_def setAttribute_def
        hasAcceptedDisclaimer_def)
  have d: "ClickOn BtnClose \<noteq> ClickOn DiscAccept" by simp
  from disclaimer_blocks_dismissal [of gatePage "ClickOn BtnClose"] a b c d
  show ?thesis by simp
qed


section \<open>The sorted collection\<close>

text \<open>
  C1, as the script computes it. Two entries whose ids parse to different finite numbers
  are ordered by these numbers, and an entry whose id parses to a finite number comes
  before every entry whose id does not; an id without a digit parses to \<open>NaN\<close>, and a
  digit run of value at most \<open>2^53\<close> parses to that value. For a consistent collation the
  sorted collection is a permutation of the entries, ascending by parsed number, with
  the entries without a finite number at the end; it is the collection \<open>init\<close> stores
  for a manifest.
\<close>

theorem byIdAscending_orders_by_number:
  "(idToNumber (c_id a) = Finite x \<and> idToNumber (c_id b) = Finite y \<and> x < y \<longrightarrow>
      byIdAscending lc a b < 0 \<and> 0 < byIdAscending lc b a) \<and>
   (isFinite (idToNumber (c_id a)) \<and> \<not> isFinite (idToNumber (c_id b)) \<longrightarrow>
      byIdAscending lc a b < 0 \<and> 0 < byIdAscending lc b a) \<and>
   (matchDigits (toString (orEmpty v)) = None \<longrightarrow> idToNumber v = NaN) \<and>
   (matchDigits (toString (orEmpty v)) = Some ds \<and> digitsValue ds \<le> 2 ^ 53 \<longrightarrow>
      idToNumber v = Finite (digitsValue ds)) \<and>
   (consistent lc \<longrightarrow>
      mset (sortBy (byIdAscending lc) xs) = mset xs \<and>
      sorted_wrt (\<lambda>a b. numberLe (idToNumber (c_id a)) (idToNumber (c_id b)))
        (sortBy (byIdAscending lc) xs)) \<and>
   (loadData f = Inr (JsonManifest m) \<longrightarrow>
      comics (init lc f st) =
        sortBy (byIdAscending lc) (case m_comics m of Some cs \<Rightarrow> cs | None \<Rightarrow> []))"
proof (intro conjI impI)
  show "byIdAscending lc a b < 0" "0 < byIdAscending lc b a"
    if "idToNumber (c_id a) = Finite x \<and> idToNumber (c_id b) = Finite y \<and> x < y"
    using that byId_less [of a x b y lc] by simp_all
  show "byIdAscending lc a b < 0" "0 < byIdAscending lc b a"
    if "isFinite (idToNumber (c_id a)) \<and> \<not> isFinite (idToNumber (c_id b))"
    using that byId_finite_first [of a b lc] by simp_all
  show "idToNumber v = NaN" if "matchDigits (toString (orEmpty v)) = None"
    using that by (rule idToNumber_none)
  show "idToNumber v = Finite (digitsValue ds)"
    if "matchDigits (toString (orEmpty v)) = Some ds \<and> digitsValue ds \<le> 2 ^ 53"
    using that idToNumber_exact by blast
  show "mset (sortBy (byIdAscending lc) xs) = mset xs"
    by (rule mset_sortBy)
  show "sorted_wrt (\<lambda>a b. numberLe (idToNumber (c_id a)) (idToNumber (c_id b)))
        (sortBy (byIdAscending lc) xs)" if "consistent lc"
    using that by (rule sortBy_by_number)
  show "comics (init lc f st) =
        sortBy (byIdAscending lc) (case m_comics m of Some cs \<Rightarrow> cs | None \<Rightarrow> [])"
    if "loadData f = Inr (JsonManifest m)"
    using comics_init_manifest [OF that, of lc st] by (simp only: sortedComics_def)
qed

text \<open>
  The digit runs 9007199254740993 and 9007199254740992 parse to the same double, so the
  collation of the whole ids decides, and the entry with the larger run comes first.
\<close>

theorem byIdAscending_rounding_counterexample:
  "matchDigits (toString (orEmpty (c_id roundedA))) = Some (str ''9007199254740993'') \<and>
   matchDigits (toString (orEmpty (c_id roundedB))) = Some (str ''9007199254740992'') \<and>
   digitsValue (str ''9007199254740992'') < digitsValue (str ''9007199254740993'') \<and>
   byIdAscending localeCompareNumeric roundedA roundedB < 0"
proof -
  have a: "matchDigits (toString (orEmpty (c_id roundedA))) = Some (str ''9007199254740993'')"
    by (simp add: roundedA_def entryWithId_def matchDigits_def str_def ch_def isDigit_def)
  have b: "matchDigits (toString (orEmpty (c_id roundedB))) = Some (str ''9007199254740992'')"
    by (simp add: roundedB_def entryWithId_def matchDigits_def str_def ch_def isDigit_def)
  have va: "digitsValue (str ''9007199254740993'') = 9007199254740993"
    by (simp add: digitsValue_def str_def ch_def)
  have vb: "digitsValue (str ''9007199254740992'') = 9007199254740992"
    by (simp add: digitsValue_def str_def ch_def)
  have na: "idToNumber (c_id roundedA) = Finite 9007199254740992"
    by (simp add: idToNumber_def a va toNumber_def roundTiesEven_def dropBits_993)
  have nb: "idToNumber (c_id roundedB) = Finite 9007199254740992"
    by (simp add: idToNumber_def b vb toNumber_def roundTiesEven_def dropBits_992)
  have lc: "localeCompareNumeric (str ''a9007199254740993'') (str ''b9007199254740992'') = - 1"
    by (simp add: localeCompareNumeric_def str_def ch_def isDigit_def digitsValue_def)
  have "byIdAscending localeCompareNumeric roundedA roundedB = - 1"
    using lc by (simp add: byIdAscending_def na nb) (simp add: roundedA_def roundedB_def entryWithId_def)
  with a b va vb show ?thesis by simp
qed

text \<open>The ids \<open>abc\<close>, \<open>002\<close> and \<open>001\<close> sort to \<open>001\<close>, \<open>002\<close>, \<open>abc\<close>.\<close>

theorem byIdAscending_orders_by_number_witness:
  "byIdAscending localeCompareNumeric (entryWithId (JStr (str ''001''))) (entryWithId (JStr (str ''002''))) < 0 \<and>
   byIdAscending localeCompareNumeric (entryWithId (JStr (str ''002''))) (entryWithId (JStr (str ''abc''))) < 0 \<and>
   idToNumber (JStr (str ''002'')) = Finite 2 \<and>
   idToNumber (JStr (str ''abc'')) = NaN \<and>
   sortBy (byIdAscending localeCompareNumeric)
     [entryWithId (JStr (str ''abc'')), entryWithId (JStr (str ''002'')), entryWithId (JStr (str ''001''))] =
     [entryWithId (JStr (str ''001'')), entryWithId (JStr (str ''002'')), entryWithId (JStr (str ''abc''))] \<and>
   sorted_wrt (\<lambda>a b. numberLe (idToNumber (c_id a)) (idToNumber (c_id b)))
     [entryWithId (JStr (str ''001'')), entryWithId (JStr (str ''002'')), entryWithId (JStr (str ''abc''))] \<and>
   comics (init localeCompareNumeric (Response True (Json (JsonManifest twoComics))) blankPage) =
     [comicA, comicB]"
proof -
  have ld: "loadData (Response True (Json (JsonManifest twoComics))) = Inr (JsonManifest twoComics)"
    by (simp add: loadData_def)
  have sc: "sortBy (byIdAscending localeCompareNumeric)
      (case m_comics twoComics of Some cs \<Rightarrow> cs | None \<Rightarrow> []) = [comicA, comicB]"
    using twoComics_sorted by (simp only: sortedComics_def)
  note t3 = byIdAscending_orders_by_number [where lc = localeCompareNumeric and m = twoComics
      and f = "Response True (Json (JsonManifest twoComics))" and st = blankPage]
  have m2: "matchDigits (toString (orEmpty (JStr (str ''002'')))) = Some (str ''002'') \<and>
      digitsValue (str ''002'') \<le> 2 ^ 53"
    by (simp add: matchDigits_def str_def ch_def isDigit_def digitsValue_def)
  have v2: "digitsValue (str ''002'') = 2"
    by (simp add: str_def ch_def digitsValue_def)
  have m0: "matchDigits (toString (orEmpty (JStr (str ''abc'')))) = None"
    by (simp add: matchDigits_def str_def ch_def isDigit_def)
  have f: "isFinite (idToNumber (c_id (entryWithId (JStr (str ''002''))))) \<and>
      \<not> isFinite (idToNumber (c_id (entryWithId (JStr (str ''abc'')))))"
    by (simp add: entryWithId_def num_002 num_abc)
  have l: "idToNumber (c_id (entryWithId (JStr (str ''001'')))) = Finite 1 \<and>
      idToNumber (c_id (entryWithId (JStr (str ''002'')))) = Finite 2 \<and> (1::nat) < 2"
    by (simp add: entryWithId_def num_001 num_002)
  note t1 = byIdAscending_orders_by_number [of "entryWithId (JStr (str ''001''))" 1
      "entryWithId (JStr (str ''002''))" 2 localeCompareNumeric "JStr (str ''abc'')" "[]"
      "[entryWithId (JStr (str ''abc'')), entryWithId (JStr (str ''002'')), entryWithId (JStr (str ''001''))]"]
  note t2 = byIdAscending_orders_by_number [of "entryWithId (JStr (str ''002''))" 1
      "entryWithId (JStr (str ''abc''))" 2 localeCompareNumeric "JStr (str ''002'')" "str ''002''" "[]"]
  from t3 ld sc have c: "comics (init localeCompareNumeric
      (Response True (Json (JsonManifest twoComics))) blankPage) = [comicA, comicB]"
    by simp
  from t1 l m0 consistent_localeCompareNumeric t2 f m2 v2 c show ?thesis
    by (simp add: sort_scenario)
qed



section \<open>The round trip through the fragment\<close>



















lemma unat_eq_num: "(c = (numeral n :: 16 word)) \<longleftrightarrow> unat c = unat (numeral n :: 16 word)"
  by (simp add: word_unat_eq_iff)

lemma isLead_unat: "isLead c \<longleftrightarrow> 0xD800 \<le> unat c \<and> unat c \<le> 0xDBFF"
  by (simp add: isLead_def word_le_nat_alt)

lemma isTrail_unat: "isTrail c \<longleftrightarrow> 0xDC00 \<le> unat c \<and> unat c \<le> 0xDFFF"
  by (simp add: isTrail_def word_le_nat_alt)

lemma isAlnum_unat:
  "isAlnum c \<longleftrightarrow> (0x41 \<le> unat c \<and> unat c \<le> 0x5A) \<or> (0x61 \<le> unat c \<and> unat c \<le> 0x7A) \<or>
     (0x30 \<le> unat c \<and> unat c \<le> 0x39)"
  by (simp add: isAlnum_def word_le_nat_alt)

lemma isUnreserved_unat:
  "isUnreserved c \<longleftrightarrow> isAlnum c \<or> unat c \<in> {0x2D, 0x5F, 0x2E, 0x21, 0x7E, 0x2A, 0x27, 0x28, 0x29}"
  by (simp add: isUnreserved_def unat_eq_num)

lemma isUriChar_unat: "isUriChar c \<longleftrightarrow> isUnreserved c \<or> unat c = 0x25"
  by (simp add: isUriChar_def unat_eq_num)


lemma isUriChar_ascii: "isUriChar c \<Longrightarrow> unat c < 0x80"
  by (auto simp: isUriChar_unat isUnreserved_unat isAlnum_unat)

lemma isUriChar_not_surrogate: "isUriChar c \<Longrightarrow> \<not> isLead c \<and> \<not> isTrail c"
  by (auto simp: isUriChar_unat isUnreserved_unat isAlnum_unat isLead_unat isTrail_unat)













lemma toScalars_plain:
  "\<forall>c \<in> set t. \<not> isLead c \<and> \<not> isTrail c \<Longrightarrow> toScalars t = map unat t"
  by (induction t rule: toScalars.induct) auto

lemma utf8Encode_ascii: "cp < 0x80 \<Longrightarrow> utf8Encode cp = [cp]"
  by (simp add: utf8Encode_def)

lemma utf8_ascii: "\<forall>b \<in> set bs. b < 0x80 \<Longrightarrow> concat (map utf8Encode bs) = bs"
  by (induction bs) (simp_all add: utf8Encode_ascii)

lemma uri_bytes:
  assumes "\<forall>c \<in> set t. isUriChar c"
  shows "concat (map utf8Encode (toScalars t)) = map unat t"
proof -
  have a: "toScalars t = map unat t"
    using assms isUriChar_not_surrogate by (intro toScalars_plain) blast
  have "\<forall>b \<in> set (map unat t). b < 0x80"
    using assms isUriChar_ascii by auto
  then have "concat (map utf8Encode (map unat t)) = map unat t"
    by (rule utf8_ascii)
  then show ?thesis by (simp only: a)
qed





























section \<open>Hash Sync: writing and reading the fragment\<close>








end
